theory Spec2Isabelle
  imports Main "HOL-Library.AList" "HOL-Library.Sublist"
begin

section \<open>Data model\<close>

text \<open>
  The two programs of the repository, \<^verbatim>\<open>scripts/build.js\<close> (build time) and
  \<^verbatim>\<open>src/index.js\<close> (run time), are sequences of calls into the file system, git,
  HTTP, tar, glob and the search library.  Each program function becomes a HOL function
  from a configuration, the answers of the outside world and a state to a completion and
  the new state.  The state holds the contents of the data directory and the trace of
  the calls made so far; each trace entry records the data directory as it was when the
  call was made.
\<close>

type_synonym path = "string list"
type_synonym bytes = string

text \<open>A path is relative and split at the separators; \<open>[]\<close> is the directory itself.\<close>

datatype node = File bytes | Dir

type_synonym tree = "(path \<times> node) list"

text \<open>
  A value thrown in JavaScript: an \<^verbatim>\<open>Error\<close> object with its name and message, or a
  thrown primitive with its string form.
\<close>

datatype thrown = ErrorObj string string | Prim string

datatype 'a completion = Return 'a | Throw thrown | Exit nat

text \<open>
  The configuration object returned by \<^verbatim>\<open>loadConfig()\<close>.  \<^verbatim>\<open>src/config.js\<close> is taken
  as a parameter: the fields are the ones the two programs read.  A field that is
  \<^verbatim>\<open>null\<close> or \<^verbatim>\<open>undefined\<close> is \<open>None\<close>.
\<close>

record config =
  dataDir :: string
  includeDir :: "string option"
  gitUrl :: "string option"
  gitRef :: "string option"
  autoUpdateInterval :: int
  ignorePatterns :: "string list"
  toolName :: string
  toolDescription :: string

text \<open>JavaScript truthiness of a string-or-null field: the empty string is falsy.\<close>

definition truthy :: "string option \<Rightarrow> bool" where
  "truthy v = (case v of None \<Rightarrow> False | Some s \<Rightarrow> s \<noteq> [])"

datatype jsval = JUndefined | JNull | JBool bool | JNum int | JStr string | JArr "string list"

definition js_truthy :: "jsval \<Rightarrow> bool" where
  "js_truthy v = (case v of JUndefined \<Rightarrow> False | JNull \<Rightarrow> False | JBool b \<Rightarrow> b
     | JNum n \<Rightarrow> n \<noteq> 0 | JStr s \<Rightarrow> s \<noteq> [] | JArr xs \<Rightarrow> True)"

text \<open>
  The \<^verbatim>\<open>arguments\<close> of a tool call: not an object (missing, \<^verbatim>\<open>null\<close> or a primitive),
  or an object with its \<^verbatim>\<open>query\<close> and \<^verbatim>\<open>page\<close> properties.
\<close>

datatype jsargs = ArgsNotObject | ArgsObject jsval jsval

record request =
  tool_name :: string
  arguments :: jsargs

record search_options =
  path :: string
  query :: jsval
  maxTokens :: nat

datatype tool_result = ToolResult string bool

datatype ErrorCode = MethodNotFound

datatype logmsg =
    FailedEnsureDataDir thrown
  | ReceivedRequest string
  | RequestArguments jsargs
  | ExecutingSearch search_options
  | ErrorExecutingSearch thrown
  | ErrorExecutingTool string thrown
  | CheckingForUpdates
  | NotAGitRepository
  | BehindPulling nat string
  | UpdatedSuccessfully
  | UpToDate
  | ErrorCheckingForUpdates thrown
  | DataDirNotEmpty
  | ErrorInitialClone thrown
  | FailedTarball thrown
  | ErrorStartingServer thrown
  | ErrorCloning thrown
  | ErrorCopying thrown
  | CannotDetermineTarballUrl string
  | ErrorDownloading "string option"
  | FallingBackToClone
  | FallbackCloneFailed thrown
  | BuildFailed thrown

text \<open>
  The calls into the outside world.  Of the console output the trace keeps the messages
  that report an error, a fallback or a decision of the update cycle and of the request
  handler; messages that only report progress are left out.
\<close>

datatype action =
    EnsureDir path
  | EmptyDir
  | ReadDir
  | ExistsDefaultConfig
  | WriteDefaultConfig
  | Chmod
  | GitClone "string option" string "string option"
  | HttpGet string
  | TarExtract nat
  | Glob "string option" "string list"
  | CopyFile path
  | CheckIsRepo
  | GitFetch
  | GitStatus
  | GitPull string "string option"
  | SetTimeout int
  | ClearTimeout
  | Connect
  | Search search_options
  | Log logmsg

text \<open>
  How the download piped into the extraction fails, when it does: the tar stream emits
  an error after \<open>k\<close> entries (corrupt or truncated data), or the response stream
  breaks after the tar stream has taken \<open>k\<close> entries.
\<close>

datatype stream_failure = TarError nat thrown | ResponseError nat

text \<open>
  The answers of the outside world during one build or one start of the server.  Each
  field is the outcome of one external call: \<open>None\<close> or \<open>Inr\<close> when it succeeds, the
  thrown value otherwise.
\<close>

record world =
  ensureDir_err :: "thrown option"
  emptyDir_err :: "thrown option"
  readdir_err :: "thrown option"
  config_exists :: bool
  writeFile_err :: "thrown option"
  chmod_err :: "thrown option"
  clone_err :: "thrown option"
  repo_tree :: tree
  http_get :: "string \<Rightarrow> thrown + (path \<times> bytes) list"
  extract_err :: "stream_failure option"
  source :: "(path \<times> bytes) list option"
  glob_result :: "thrown + path list"
  mkdir_err :: "path \<Rightarrow> thrown option"
  copy_err :: "path \<Rightarrow> thrown option"
  isRepo_start :: "thrown + bool"
  connect_err :: "thrown option"
  search :: "search_options \<Rightarrow> thrown + string"

text \<open>The answers of git during one update cycle.\<close>

record cycle =
  isRepo :: "thrown + bool"
  fetch_err :: "thrown option"
  status :: "thrown + (nat \<times> string)"
  pull_err :: "thrown option"

text \<open>
  \<open>dir\<close> is the data directory (\<open>None\<close> when it does not exist), \<open>updateTimer\<close> the
  pending timer with its delay in milliseconds, \<open>git\<close> whether the lazily created git
  instance exists.
\<close>

record state =
  dir :: "tree option"
  trace :: "(action \<times> tree option) list"
  updateTimer :: "int option"
  git :: bool

definition emit :: "action \<Rightarrow> state \<Rightarrow> state" where
  "emit a s = s\<lparr>trace := trace s @ [(a, dir s)]\<rparr>"

section \<open>The outside world\<close>

text \<open>
  \<^verbatim>\<open>error.message\<close> of a thrown value (\<open>None\<close> is \<^verbatim>\<open>undefined\<close>), \<^verbatim>\<open>String(error)\<close>,
  and the text a template literal gives for \<^verbatim>\<open>error.message\<close>.
\<close>

definition message_of :: "thrown \<Rightarrow> string option" where
  "message_of e = (case e of ErrorObj n m \<Rightarrow> Some m | Prim v \<Rightarrow> None)"

definition to_String :: "thrown \<Rightarrow> string" where
  "to_String e = (case e of
       ErrorObj n m \<Rightarrow> (if n = [] then m else if m = [] then n else n @ '': '' @ m)
     | Prim v \<Rightarrow> v)"

definition instanceof_Error :: "thrown \<Rightarrow> bool" where
  "instanceof_Error e = (case e of ErrorObj n m \<Rightarrow> True | Prim v \<Rightarrow> False)"

definition code_str :: "ErrorCode \<Rightarrow> string" where
  "code_str c = (case c of MethodNotFound \<Rightarrow> ''-32601'')"

text \<open>
  \<^verbatim>\<open>new McpError(code, message)\<close> of the protocol SDK: an \<^verbatim>\<open>Error\<close> whose message is
  prefixed with the code.
\<close>

definition McpError :: "ErrorCode \<Rightarrow> string \<Rightarrow> thrown" where
  "McpError c m = ErrorObj ''McpError'' (''MCP error '' @ code_str c @ '': '' @ m)"

definition dir_tree :: "tree option \<Rightarrow> tree" where
  "dir_tree d = (case d of None \<Rightarrow> [] | Some t \<Rightarrow> t)"

text \<open>\<^verbatim>\<open>fs.readdir\<close> of the data directory: the names of its entries.\<close>

definition readdir_items :: "tree \<Rightarrow> string list" where
  "readdir_items t = remdups (map (\<lambda>e. hd (fst e)) (filter (\<lambda>e. fst e \<noteq> []) t))"

text \<open>
  Creating the directories of a list of paths, shortest first: a missing one is added,
  an existing directory is kept, a file in the way is an error.
\<close>

fun ensure_dirs :: "path list \<Rightarrow> tree \<Rightarrow> tree option" where
  "ensure_dirs [] t = Some t"
| "ensure_dirs (d # ds) t =
     (case map_of t d of
        Some (File b) \<Rightarrow> None
      | Some Dir \<Rightarrow> ensure_dirs ds t
      | None \<Rightarrow> ensure_dirs ds (t @ [(d, Dir)]))"

text \<open>
  \<^verbatim>\<open>fs.ensureDir\<close> of a directory below the data directory.  Besides a file in the way,
  the file system may refuse the call for a reason of its own (\<open>mkdir_err\<close>).
\<close>

definition fs_ensureDir :: "world \<Rightarrow> path \<Rightarrow> tree option \<Rightarrow> thrown + tree option" where
  "fs_ensureDir w d dr =
     (case mkdir_err w d of
        Some e \<Rightarrow> Inl e
      | None \<Rightarrow>
          (case ensure_dirs (tl (prefixes d)) (dir_tree dr) of
             None \<Rightarrow> Inl (ErrorObj ''Error'' ''EEXIST'')
           | Some t \<Rightarrow> Inr (Some t)))"

text \<open>
  \<^verbatim>\<open>fs.copy(sourcePath, targetPath)\<close> of one file of the source directory: the bytes of
  the source file are written at the same relative path of the data directory.  The call
  fails when the source file or the data directory is missing, when a directory is in the
  way, or for a reason of the file system's own (\<open>copy_err\<close>, an unreadable file for
  instance).
\<close>

definition fs_copy :: "world \<Rightarrow> path \<Rightarrow> tree option \<Rightarrow> thrown + tree option" where
  "fs_copy w f dr =
     (case copy_err w f of
        Some e \<Rightarrow> Inl e
      | None \<Rightarrow>
          (case source w of
             None \<Rightarrow> Inl (ErrorObj ''Error'' ''ENOENT'')
           | Some files \<Rightarrow>
               (case map_of files f of
                  None \<Rightarrow> Inl (ErrorObj ''Error'' ''ENOENT'')
                | Some b \<Rightarrow>
                    (case dr of
                       None \<Rightarrow> Inl (ErrorObj ''Error'' ''ENOENT'')
                     | Some t \<Rightarrow>
                         (case map_of t f of
                            Some Dir \<Rightarrow> Inl (ErrorObj ''Error'' ''EISDIR'')
                          | _ \<Rightarrow> Inr (Some (AList.update f (File b) t)))))))"

text \<open>
  \<^verbatim>\<open>git clone\<close> into the data directory: git refuses a directory that has entries;
  otherwise the clone succeeds or fails as the remote decides.
\<close>

definition git_clone :: "world \<Rightarrow> tree option \<Rightarrow> thrown + tree" where
  "git_clone w dr =
     (if readdir_items (dir_tree dr) \<noteq> [] then Inl (ErrorObj ''GitError'' ''destination path already exists and is not an empty directory'')
      else (case clone_err w of None \<Rightarrow> Inr (repo_tree w) | Some e \<Rightarrow> Inl e))"

text \<open>
  \<^verbatim>\<open>tar.x({ strip: n, C: dataDir })\<close>: an entry with no more than \<open>n\<close> path components
  is skipped, the others lose their first \<open>n\<close> components; each remaining entry is
  written with its parent directories, and an entry that cannot be written is skipped.
  A failure of either stream after \<open>k\<close> entries leaves those \<open>k\<close> entries behind.
\<close>

definition tar_strip :: "nat \<Rightarrow> (path \<times> bytes) list \<Rightarrow> (path \<times> bytes) list" where
  "tar_strip n es = map (\<lambda>e. (drop n (fst e), snd e)) (filter (\<lambda>e. n < length (fst e)) es)"

definition write_entry :: "path \<times> bytes \<Rightarrow> tree \<Rightarrow> tree" where
  "write_entry e t =
     (case ensure_dirs (tl (prefixes (butlast (fst e)))) t of
        None \<Rightarrow> t
      | Some t1 \<Rightarrow> (case map_of t1 (fst e) of Some Dir \<Rightarrow> t1 | _ \<Rightarrow> AList.update (fst e) (File (snd e)) t1))"

definition tar_x :: "world \<Rightarrow> nat \<Rightarrow> (path \<times> bytes) list \<Rightarrow> tree option \<Rightarrow> stream_failure option \<times> tree option" where
  "tar_x w n es dr =
     (case dr of
        None \<Rightarrow> (Some (TarError 0 (ErrorObj ''Error'' ''ENOENT'')), None)
      | Some t \<Rightarrow>
          (case extract_err w of
             None \<Rightarrow> (None, Some (fold write_entry (tar_strip n es) t))
           | Some (TarError k e) \<Rightarrow>
               (Some (TarError k e), Some (fold write_entry (take k (tar_strip n es)) t))
           | Some (ResponseError k) \<Rightarrow>
               (Some (ResponseError k), Some (fold write_entry (take k (tar_strip n es)) t))))"

section \<open>scripts/build.js\<close>

text \<open>
  \<^verbatim>\<open>config.gitUrl.match(/github\.com\/([^/]+)\/([^/]+?)(\.git)?$/)\<close>.  \<open>match_here\<close> is the
  match anchored at the start of its argument: the literal, the longest run without a
  slash, a slash, and a rest without a slash up to the end of the input, from which the
  lazy second group leaves a final \<^verbatim>\<open>.git\<close> to the optional third group whenever
  something remains for itself.  \<open>gitUrl_match\<close> tries the start positions from the left.
\<close>

definition strip_dot_git :: "string \<Rightarrow> string" where
  "strip_dot_git r =
     (if 4 < length r \<and> drop (length r - 4) r = ''.git'' then take (length r - 4) r else r)"

definition match_here :: "string \<Rightarrow> (string \<times> string) option" where
  "match_here u =
     (if take 11 u = ''github.com/'' then
        (let rest = drop 11 u;
             owner = takeWhile (\<lambda>c. c \<noteq> CHR ''/'') rest;
             after = dropWhile (\<lambda>c. c \<noteq> CHR ''/'') rest
         in if owner = [] then None
            else (case after of
                    [] \<Rightarrow> None
                  | x # r \<Rightarrow> if r = [] \<or> CHR ''/'' \<in> set r then None
                             else Some (owner, strip_dot_git r)))
      else None)"

fun gitUrl_match :: "string \<Rightarrow> (string \<times> string) option" where
  "gitUrl_match [] = None"
| "gitUrl_match (c # cs) =
     (case match_here (c # cs) of Some m \<Rightarrow> Some m | None \<Rightarrow> gitUrl_match cs)"

definition tarballUrl :: "string \<Rightarrow> string \<Rightarrow> string \<Rightarrow> string" where
  "tarballUrl owner repo ref =
     ''https://github.com/'' @ owner @ ''/'' @ repo @ ''/archive/'' @ ref @ ''.tar.gz''"

text \<open>\<^verbatim>\<open>config.gitRef || 'main'\<close>.\<close>

definition ref_or_main :: "config \<Rightarrow> string" where
  "ref_or_main c = (case gitRef c of None \<Rightarrow> ''main'' | Some r \<Rightarrow> if r = [] then ''main'' else r)"

definition cloneGitRepo :: "config \<Rightarrow> world \<Rightarrow> state \<Rightarrow> unit completion \<times> state" where
  "cloneGitRepo c w s =
     (let s1 = emit (GitClone (gitUrl c) (dataDir c) (gitRef c)) s
      in case git_clone w (dir s1) of
           Inr t \<Rightarrow> (Return (), s1\<lparr>dir := Some t\<rparr>)
         | Inl e \<Rightarrow> (Throw e, emit (Log (ErrorCloning e)) s1))"

text \<open>The loop of \<^verbatim>\<open>copyIncludedDir\<close> over the files that glob returned.\<close>

fun copy_files :: "world \<Rightarrow> path list \<Rightarrow> state \<Rightarrow> thrown option \<times> state" where
  "copy_files w [] s = (None, s)"
| "copy_files w (f # fs) s =
     (let s1 = emit (EnsureDir (butlast f)) s
      in case fs_ensureDir w (butlast f) (dir s1) of
           Inl e \<Rightarrow> (Some e, s1)
         | Inr d1 \<Rightarrow>
             (let s2 = emit (CopyFile f) (s1\<lparr>dir := d1\<rparr>)
              in case fs_copy w f (dir s2) of
                   Inl e \<Rightarrow> (Some e, s2)
                 | Inr d2 \<Rightarrow> copy_files w fs (s2\<lparr>dir := d2\<rparr>)))"

text \<open>
  \<^verbatim>\<open>copyIncludedDir\<close>.  The enumeration is the call
  \<^verbatim>\<open>glob('**/*', { cwd: includeDir, nodir: true, ignore: ignorePatterns, dot: true, gitignore: true })\<close>
  of the glob package; what it resolves to is \<open>glob_result\<close> of the world.
\<close>

definition copyIncludedDir :: "config \<Rightarrow> world \<Rightarrow> state \<Rightarrow> unit completion \<times> state" where
  "copyIncludedDir c w s =
     (let s1 = emit (Glob (includeDir c) (ignorePatterns c)) s
      in case glob_result w of
           Inl e \<Rightarrow> (Throw e, emit (Log (ErrorCopying e)) s1)
         | Inr files \<Rightarrow>
             (case copy_files w files s1 of
                (None, s2) \<Rightarrow> (Return (), s2)
              | (Some e, s2) \<Rightarrow> (Throw e, emit (Log (ErrorCopying e)) s2)))"

text \<open>
  The \<^verbatim>\<open>try\<close> block of \<^verbatim>\<open>downloadAndExtractTarball\<close>: the request, then the promise around
  \<^verbatim>\<open>response.data.pipe(tar.x(...))\<close>.  The promise listens to the tar stream only:
  \<^verbatim>\<open>finish\<close> resolves it and \<^verbatim>\<open>error\<close> rejects it.  When the response stream breaks,
  the tar stream gets neither event, the promise never settles, nothing else is pending,
  and the process ends with exit code 0 without running what follows the \<^verbatim>\<open>await\<close>.
\<close>

definition download_extract :: "world \<Rightarrow> string \<Rightarrow> state \<Rightarrow> unit completion \<times> state" where
  "download_extract w url s =
     (let s1 = emit (HttpGet url) s
      in case http_get w url of
           Inl e \<Rightarrow> (Throw e, s1)
         | Inr es \<Rightarrow>
             (let s2 = emit (TarExtract 1) s1
              in case tar_x w 1 es (dir s2) of
                   (None, d) \<Rightarrow> (Return (), s2\<lparr>dir := d\<rparr>)
                 | (Some (TarError k e), d) \<Rightarrow> (Throw e, s2\<lparr>dir := d\<rparr>)
                 | (Some (ResponseError k), d) \<Rightarrow> (Exit 0, s2\<lparr>dir := d\<rparr>)))"

definition downloadAndExtractTarball :: "config \<Rightarrow> world \<Rightarrow> state \<Rightarrow> unit completion \<times> state" where
  "downloadAndExtractTarball c w s =
     (case gitUrl c of
        None \<Rightarrow> (Throw (ErrorObj ''TypeError'' ''Cannot read properties of null (reading match)''), s)
      | Some url \<Rightarrow>
          (case gitUrl_match url of
             None \<Rightarrow> cloneGitRepo c w (emit (Log (CannotDetermineTarballUrl url)) s)
           | Some m \<Rightarrow>
               (case download_extract w (tarballUrl (fst m) (snd m) (ref_or_main c)) s of
                  (Return u, s1) \<Rightarrow> (Return (), s1)
                | (Exit n, s1) \<Rightarrow> (Exit n, s1)
                | (Throw e, s1) \<Rightarrow>
                    (case cloneGitRepo c w
                            (emit (Log FallingBackToClone) (emit (Log (ErrorDownloading (message_of e))) s1)) of
                       (Throw ce, s2) \<Rightarrow> (Throw ce, emit (Log (FallbackCloneFailed ce)) s2)
                     | r \<Rightarrow> r))))"

definition fs_ensureDataDir :: "world \<Rightarrow> tree option \<Rightarrow> thrown + tree option" where
  "fs_ensureDataDir w dr =
     (case ensureDir_err w of Some e \<Rightarrow> Inl e | None \<Rightarrow> Inr (Some (dir_tree dr)))"

definition fs_emptyDir :: "world \<Rightarrow> tree option \<Rightarrow> thrown + tree option" where
  "fs_emptyDir w dr = (case emptyDir_err w of Some e \<Rightarrow> Inl e | None \<Rightarrow> Inr (Some []))"

definition prepareDataDir :: "config \<Rightarrow> world \<Rightarrow> state \<Rightarrow> unit completion \<times> state" where
  "prepareDataDir c w s =
     (let s1 = emit (EnsureDir []) s
      in case fs_ensureDataDir w (dir s1) of
           Inl e \<Rightarrow> (Throw e, s1)
         | Inr d1 \<Rightarrow>
             (let s2 = emit EmptyDir (s1\<lparr>dir := d1\<rparr>)
              in case fs_emptyDir w (dir s2) of
                   Inl e \<Rightarrow> (Throw e, s2)
                 | Inr d2 \<Rightarrow>
                     (let s3 = s2\<lparr>dir := d2\<rparr>
                      in if truthy (gitUrl c) then
                           (if 0 < autoUpdateInterval c then cloneGitRepo c w s3
                            else downloadAndExtractTarball c w s3)
                         else if truthy (includeDir c) then copyIncludedDir c w s3
                         else (Return (), s3))))"

definition createDefaultConfig :: "world \<Rightarrow> state \<Rightarrow> unit completion \<times> state" where
  "createDefaultConfig w s =
     (let s1 = emit ExistsDefaultConfig s
      in if config_exists w then (Return (), s1)
         else (let s2 = emit WriteDefaultConfig s1
               in case writeFile_err w of Some e \<Rightarrow> (Throw e, s2) | None \<Rightarrow> (Return (), s2)))"

text \<open>The \<^verbatim>\<open>try\<close> block of \<^verbatim>\<open>build\<close>, then \<^verbatim>\<open>build\<close> with its \<^verbatim>\<open>catch\<close>.\<close>

definition build_steps :: "config \<Rightarrow> world \<Rightarrow> state \<Rightarrow> unit completion \<times> state" where
  "build_steps c w s =
     (case createDefaultConfig w s of
        (Return u, s1) \<Rightarrow>
          (case prepareDataDir c w s1 of
             (Return v, s2) \<Rightarrow>
               (let s3 = emit Chmod s2
                in case chmod_err w of Some e \<Rightarrow> (Throw e, s3) | None \<Rightarrow> (Return (), s3))
           | r \<Rightarrow> r)
      | r \<Rightarrow> r)"

definition build :: "config \<Rightarrow> world \<Rightarrow> state \<Rightarrow> unit completion \<times> state" where
  "build c w s =
     (case build_steps c w s of
        (Throw e, s1) \<Rightarrow> (Exit 1, emit (Log (BuildFailed e)) s1)
      | r \<Rightarrow> r)"

section \<open>src/index.js\<close>

text \<open>
  The module body before the server object is made: \<^verbatim>\<open>fs.ensureDirSync(config.dataDir)\<close>,
  with \<^verbatim>\<open>process.exit(1)\<close> when it throws.
\<close>

definition module_init :: "config \<Rightarrow> world \<Rightarrow> state \<Rightarrow> unit completion \<times> state" where
  "module_init c w s =
     (let s1 = emit (EnsureDir []) s
      in case fs_ensureDataDir w (dir s1) of
           Inl e \<Rightarrow> (Exit 1, emit (Log (FailedEnsureDataDir e)) s1)
         | Inr d \<Rightarrow> (Return (), s1\<lparr>dir := d\<rparr>))"

text \<open>\<^verbatim>\<open>error.message || String(error)\<close>.\<close>

definition message_or_String :: "thrown \<Rightarrow> string" where
  "message_or_String e =
     (case message_of e of None \<Rightarrow> to_String e | Some m \<Rightarrow> if m = [] then to_String e else m)"

definition executeDocsSearch :: "config \<Rightarrow> world \<Rightarrow> jsval \<Rightarrow> state \<Rightarrow> string completion \<times> state" where
  "executeDocsSearch c w q s =
     (let options = \<lparr>path = dataDir c, query = q, maxTokens = 10000\<rparr>;
          s1 = emit (Search options) (emit (Log (ExecutingSearch options)) s)
      in case search w options of
           Inr result \<Rightarrow> (Return result, s1)
         | Inl e \<Rightarrow>
             (Throw (McpError MethodNotFound (''Error executing docs search: '' @ message_or_String e)),
              emit (Log (ErrorExecutingSearch e)) s1))"

text \<open>The \<^verbatim>\<open>try\<close> block of the tool-call handler.\<close>

definition call_tool_body :: "config \<Rightarrow> world \<Rightarrow> request \<Rightarrow> state \<Rightarrow> string completion \<times> state" where
  "call_tool_body c w r s =
     (let s1 = emit (Log (RequestArguments (arguments r))) (emit (Log (ReceivedRequest (tool_name r))) s)
      in case arguments r of
           ArgsNotObject \<Rightarrow> (Throw (ErrorObj ''Error'' ''Arguments must be an object''), s1)
         | ArgsObject q pg \<Rightarrow>
             if \<not> js_truthy q then (Throw (ErrorObj ''Error'' ''Query is required in arguments''), s1)
             else executeDocsSearch c w q s1)"

text \<open>The handler registered for \<^verbatim>\<open>CallToolRequestSchema\<close>.\<close>

definition call_tool :: "config \<Rightarrow> world \<Rightarrow> request \<Rightarrow> state \<Rightarrow> tool_result completion \<times> state" where
  "call_tool c w r s =
     (if tool_name r \<noteq> toolName c then
        (Throw (McpError MethodNotFound
                  (''Unknown tool: '' @ tool_name r @ ''. Expected: '' @ toolName c)), s)
      else (case call_tool_body c w r s of
              (Return result, s1) \<Rightarrow> (Return (ToolResult result False), s1)
            | (Throw e, s1) \<Rightarrow>
                (Return (ToolResult
                           (''Error executing '' @ tool_name r @ '': '' @
                            (if instanceof_Error e then
                               (case message_of e of None \<Rightarrow> ''undefined'' | Some m \<Rightarrow> m)
                             else to_String e))
                           True),
                 emit (Log (ErrorExecutingTool (tool_name r) e)) s1)
            | (Exit n, s1) \<Rightarrow> (Exit n, s1)))"

text \<open>
  The server of the protocol SDK hands each incoming request to the handler; a handler
  that throws makes the reply to that request an error reply, and only an exit of the
  process ends the service.
\<close>

fun serve :: "config \<Rightarrow> world \<Rightarrow> request list \<Rightarrow> state \<Rightarrow> tool_result completion list \<times> state" where
  "serve c w [] s = ([], s)"
| "serve c w (r # rs) s =
     (case call_tool c w r s of
        (Exit n, s1) \<Rightarrow> ([Exit n], s1)
      | (x, s1) \<Rightarrow> (case serve c w rs s1 of (xs, s2) \<Rightarrow> (x # xs, s2)))"

text \<open>
  The \<^verbatim>\<open>try\<close> block of \<^verbatim>\<open>checkForUpdates\<close>: \<open>None\<close> when it completes (the early
  \<^verbatim>\<open>return\<close> included), the thrown value otherwise.  The variable \<^verbatim>\<open>git\<close> is
  \<^verbatim>\<open>null\<close> until \<^verbatim>\<open>run\<close> creates the instance.
\<close>

definition sync_body :: "config \<Rightarrow> cycle \<Rightarrow> state \<Rightarrow> thrown option \<times> state" where
  "sync_body c cy s =
     (if \<not> git s then (Some (ErrorObj ''TypeError'' ''Cannot read properties of null (reading checkIsRepo)''), s)
      else
       (let s1 = emit CheckIsRepo s
        in case isRepo cy of
             Inl e \<Rightarrow> (Some e, s1)
           | Inr False \<Rightarrow> (None, emit (Log NotAGitRepository) s1)
           | Inr True \<Rightarrow>
               (let s2 = emit GitFetch s1
                in case fetch_err cy of
                     Some e \<Rightarrow> (Some e, s2)
                   | None \<Rightarrow>
                       (let s3 = emit GitStatus s2
                        in case status cy of
                             Inl e \<Rightarrow> (Some e, s3)
                           | Inr st \<Rightarrow>
                               if 0 < fst st then
                                 (let s4 = emit (GitPull ''origin'' (gitRef c))
                                             (emit (Log (BehindPulling (fst st) (snd st))) s3)
                                  in case pull_err cy of
                                       Some e \<Rightarrow> (Some e, s4)
                                     | None \<Rightarrow> (None, emit (Log UpdatedSuccessfully) s4))
                               else (None, emit (Log UpToDate) s3)))))"

text \<open>The \<^verbatim>\<open>finally\<close> block of \<^verbatim>\<open>checkForUpdates\<close>.\<close>

definition schedule_next :: "config \<Rightarrow> state \<Rightarrow> state" where
  "schedule_next c s =
     (if 0 < autoUpdateInterval c then
        (emit (SetTimeout (autoUpdateInterval c * 60 * 1000)) s)
          \<lparr>updateTimer := Some (autoUpdateInterval c * 60 * 1000)\<rparr>
      else s)"

definition checkForUpdates :: "config \<Rightarrow> cycle \<Rightarrow> state \<Rightarrow> unit completion \<times> state" where
  "checkForUpdates c cy s =
     (if \<not> truthy (gitUrl c) then (Return (), s)
      else (case sync_body c cy (emit (Log CheckingForUpdates) s) of
              (None, s1) \<Rightarrow> (Return (), schedule_next c s1)
            | (Some e, s1) \<Rightarrow> (Return (), schedule_next c (emit (Log (ErrorCheckingForUpdates e)) s1))))"

text \<open>
  The timer callback \<^verbatim>\<open>() => this.checkForUpdates()\<close>: each time the pending timer
  fires, one cycle runs with the answers git gives in that cycle.  Without a pending
  timer nothing more runs.
\<close>

fun timer_fires :: "config \<Rightarrow> cycle list \<Rightarrow> state \<Rightarrow> unit completion list \<times> state" where
  "timer_fires c [] s = ([], s)"
| "timer_fires c (cy # cys) s =
     (case updateTimer s of
        None \<Rightarrow> ([], s)
      | Some d \<Rightarrow>
          (case checkForUpdates c cy (s\<lparr>updateTimer := None\<rparr>) of
             (Return u, s1) \<Rightarrow> (case timer_fires c cys s1 of (rs, s2) \<Rightarrow> (Return u # rs, s2))
           | (r, s1) \<Rightarrow> ([r], s1)))"

text \<open>\<^verbatim>\<open>if (updateTimer) clearTimeout(updateTimer); updateTimer = null\<close>.\<close>

definition clear_timer :: "state \<Rightarrow> state" where
  "clear_timer s =
     (case updateTimer s of None \<Rightarrow> s | Some d \<Rightarrow> (emit ClearTimeout s)\<lparr>updateTimer := None\<rparr>)"

definition fs_readdir :: "world \<Rightarrow> tree option \<Rightarrow> thrown + string list" where
  "fs_readdir w dr =
     (case dr of
        None \<Rightarrow> Inl (ErrorObj ''Error'' ''ENOENT'')
      | Some t \<Rightarrow> (case readdir_err w of Some e \<Rightarrow> Inl e | None \<Rightarrow> Inr (readdir_items t)))"

text \<open>
  The initial clone of \<^verbatim>\<open>run\<close> when the data directory is not a repository: the inner
  \<^verbatim>\<open>try\<close> block, whose \<^verbatim>\<open>catch\<close> ends the process.
\<close>

definition clone_steps :: "config \<Rightarrow> world \<Rightarrow> state \<Rightarrow> thrown option \<times> state" where
  "clone_steps c w s =
     (let s1 = emit ReadDir s
      in case fs_readdir w (dir s1) of
           Inl e \<Rightarrow> (Some e, s1)
         | Inr items \<Rightarrow>
             (case (if items \<noteq> [] then
                      (let s2 = emit EmptyDir (emit (Log DataDirNotEmpty) s1)
                       in case fs_emptyDir w (dir s2) of
                            Inl e \<Rightarrow> (Some e, s2)
                          | Inr d \<Rightarrow> (None, s2\<lparr>dir := d\<rparr>))
                    else (None, s1)) of
                (Some e, s3) \<Rightarrow> (Some e, s3)
              | (None, s3) \<Rightarrow>
                  (let s4 = emit (GitClone (gitUrl c) (dataDir c) (gitRef c)) s3
                   in case git_clone w (dir s4) of
                        Inl e \<Rightarrow> (Some e, s4)
                      | Inr t \<Rightarrow> (None, s4\<lparr>dir := Some t\<rparr>))))"

definition initial_clone :: "config \<Rightarrow> world \<Rightarrow> state \<Rightarrow> unit completion \<times> state" where
  "initial_clone c w s =
     (case clone_steps c w s of
        (None, s1) \<Rightarrow> (Return (), s1)
      | (Some e, s1) \<Rightarrow> (Exit 1, emit (Log (ErrorInitialClone e)) s1))"

text \<open>
  The content source initialisation of \<^verbatim>\<open>run\<close>.  In the branch without auto-update
  \<^verbatim>\<open>run\<close> calls \<^verbatim>\<open>this.downloadAndExtractTarballRuntime()\<close>; the class declares the methods
  \<^verbatim>\<open>constructor\<close>, \<^verbatim>\<open>setupToolHandlers\<close>, \<^verbatim>\<open>executeDocsSearch\<close>, \<^verbatim>\<open>checkForUpdates\<close> and
  \<^verbatim>\<open>run\<close> only, so the call throws a \<^verbatim>\<open>TypeError\<close> inside the \<^verbatim>\<open>try\<close> block whose
  \<^verbatim>\<open>catch\<close> ends the process.
\<close>

definition init_content :: "config \<Rightarrow> world \<Rightarrow> cycle \<Rightarrow> state \<Rightarrow> unit completion \<times> state" where
  "init_content c w cy s =
     (if truthy (gitUrl c) then
        (if 0 < autoUpdateInterval c then
           (let s1 = emit CheckIsRepo (s\<lparr>git := True\<rparr>)
            in case isRepo_start w of
                 Inl e \<Rightarrow> (Throw e, s1)
               | Inr False \<Rightarrow> initial_clone c w s1
               | Inr True \<Rightarrow> checkForUpdates c cy s1)
         else
           (Exit 1,
            emit (Log (FailedTarball
                         (ErrorObj ''TypeError'' ''this.downloadAndExtractTarballRuntime is not a function''))) s))
      else (Return (), clear_timer s))"

text \<open>\<^verbatim>\<open>run\<close>: the content source, then the transport; the outer \<^verbatim>\<open>catch\<close> ends the process.\<close>

definition run :: "config \<Rightarrow> world \<Rightarrow> cycle \<Rightarrow> state \<Rightarrow> unit completion \<times> state" where
  "run c w cy s =
     (case init_content c w cy s of
        (Return u, s1) \<Rightarrow>
          (let s2 = emit Connect s1
           in case connect_err w of
                None \<Rightarrow> (Return (), s2)
              | Some e \<Rightarrow> (Exit 1, emit (Log (ErrorStartingServer e)) s2))
      | (Throw e, s1) \<Rightarrow> (Exit 1, emit (Log (ErrorStartingServer e)) s1)
      | (Exit n, s1) \<Rightarrow> (Exit n, s1))"

text \<open>The start of the server: the module body, then \<^verbatim>\<open>server.run()\<close>.\<close>

definition startup :: "config \<Rightarrow> world \<Rightarrow> cycle \<Rightarrow> state \<Rightarrow> unit completion \<times> state" where
  "startup c w cy s =
     (case module_init c w s of
        (Return u, s1) \<Rightarrow> run c w cy s1
      | r \<Rightarrow> r)"

section \<open>Observations on a run\<close>

text \<open>The options of the calls of the search library recorded in the trace, in order.\<close>

definition searches :: "state \<Rightarrow> search_options list" where
  "searches s = concat (map (\<lambda>e. case fst e of Search opts \<Rightarrow> [opts] | _ \<Rightarrow> []) (trace s))"

text \<open>The calls that a run from state \<open>s\<close> to state \<open>s'\<close> added to the trace.\<close>

definition new_actions :: "state \<Rightarrow> state \<Rightarrow> action list" where
  "new_actions s s' = map fst (drop (length (trace s)) (trace s'))"

text \<open>
  The calls by which an acquisition strategy writes into the data directory: the clone,
  the extraction, the copy of a file and the creation of a directory below the data
  directory.
\<close>

definition is_write :: "action \<Rightarrow> bool" where
  "is_write a = (case a of
       GitClone u d r \<Rightarrow> True
     | TarExtract n \<Rightarrow> True
     | CopyFile f \<Rightarrow> True
     | EnsureDir p \<Rightarrow> p \<noteq> []
     | _ \<Rightarrow> False)"

definition is_empty_dir :: "tree option \<Rightarrow> bool" where
  "is_empty_dir d = (case d of None \<Rightarrow> False | Some t \<Rightarrow> readdir_items t = [])"

text \<open>
  The first write of a run from \<open>s\<close> to \<open>s'\<close>, with the data directory as it was at
  that moment.
\<close>

definition first_write :: "state \<Rightarrow> state \<Rightarrow> (action \<times> tree option) option" where
  "first_write s s' = find (\<lambda>e. is_write (fst e)) (drop (length (trace s)) (trace s'))"

text \<open>The first write of a list of trace entries, if any, found the data directory empty.\<close>

definition first_ok :: "(action \<times> tree option) list \<Rightarrow> bool" where
  "first_ok es = (case find (\<lambda>e. is_write (fst e)) es of None \<Rightarrow> True | Some e \<Rightarrow> is_empty_dir (snd e))"

section \<open>Concrete configurations and worlds\<close>

definition initial_state :: state where
  "initial_state = \<lparr>dir = None, trace = [], updateTimer = None, git = False\<rparr>"

text \<open>A world in which every call succeeds, except that the archive request answers 404.\<close>

definition quiet_world :: world where
  "quiet_world =
     \<lparr>ensureDir_err = None, emptyDir_err = None, readdir_err = None, config_exists = True,
      writeFile_err = None, chmod_err = None, clone_err = None,
      repo_tree = [([''README.md''], File ''# docs'')],
      http_get = (\<lambda>u. Inl (ErrorObj ''AxiosError'' ''Request failed with status code 404'')),
      extract_err = None, source = None, glob_result = Inr [],
      mkdir_err = (\<lambda>d. None), copy_err = (\<lambda>f. None),
      isRepo_start = Inr False, connect_err = None,
      search = (\<lambda>opts. Inr ''no results'')\<rparr>"

definition acme_config :: config where
  "acme_config =
     \<lparr>dataDir = ''data'', includeDir = None, gitUrl = Some ''https://github.com/acme/docs'',
      gitRef = Some ''main'', autoUpdateInterval = 0, ignorePatterns = [],
      toolName = ''search_docs'', toolDescription = ''Search the documentation''\<rparr>"

definition docs_request :: request where
  "docs_request = \<lparr>tool_name = ''search_docs'', arguments = ArgsObject (JStr ''install'') (JNum 2)\<rparr>"

definition failing_search_world :: world where
  "failing_search_world = quiet_world\<lparr>search := (\<lambda>opts. Inl (ErrorObj ''Error'' ''probe exited with code 1''))\<rparr>"

definition auto_config :: config where
  "auto_config = acme_config\<lparr>autoUpdateInterval := 5\<rparr>"

definition serving_state :: state where
  "serving_state =
     \<lparr>dir = Some [([''README.md''], File ''# docs'')], trace = [], updateTimer = Some 300000, git = True\<rparr>"

definition cycle_behind :: cycle where
  "cycle_behind = \<lparr>isRepo = Inr True, fetch_err = None, status = Inr (3, ''origin/main''), pull_err = None\<rparr>"

definition cycle_not_repo :: cycle where
  "cycle_not_repo = cycle_behind\<lparr>isRepo := Inr False\<rparr>"

definition cycle_fetch_fails :: cycle where
  "cycle_fetch_fails = cycle_behind\<lparr>fetch_err := Some (ErrorObj ''GitError'' ''could not resolve host'')\<rparr>"

definition archive_world :: world where
  "archive_world =
     quiet_world\<lparr>http_get := (\<lambda>u. if u = ''https://github.com/acme/docs/archive/main.tar.gz''
                                    then Inr [([''docs-main'', ''README.md''], ''# docs''),
                                              ([''docs-main'', ''guide'', ''install.md''], ''npm install'')]
                                    else Inl (ErrorObj ''AxiosError'' ''Request failed with status code 404''))\<rparr>"

definition static_config :: config where
  "static_config =
     \<lparr>dataDir = ''data'', includeDir = Some ''/srv/docs'', gitUrl = None,
      gitRef = Some ''main'', autoUpdateInterval = 5, ignorePatterns = [''*.tmp''],
      toolName = ''search_docs'', toolDescription = ''Search the documentation''\<rparr>"

text \<open>
  A world in which the source directory of the static copy does not exist, and the
  enumeration resolves to no file.
\<close>

definition missing_source_world :: world where
  "missing_source_world = quiet_world\<lparr>source := None, glob_result := Inr []\<rparr>"

text \<open>
  A source directory with a \<^verbatim>\<open>.gitignore\<close> file that names \<^verbatim>\<open>secret.txt\<close>, enumerated
  by a glob that returns every file.
\<close>

definition gitignore_world :: world where
  "gitignore_world =
     quiet_world\<lparr>source := Some [([''.gitignore''], ''secret.txt''), ([''a.md''], ''# A''),
                                ([''secret.txt''], ''token'')],
                 glob_result := Inr [[''.gitignore''], [''a.md''], [''secret.txt'']]\<rparr>"

text \<open>A state whose data directory holds a file of an earlier pass.\<close>

definition stale_state :: state where
  "stale_state =
     \<lparr>dir = Some [([''old.md''], File ''stale'')], trace = [], updateTimer = None, git = False\<rparr>"

text \<open>
  A world whose archive answers, but whose tar stream reports corrupt data after the first
  entry has been written.
\<close>

definition corrupt_archive_world :: world where
  "corrupt_archive_world =
     archive_world\<lparr>extract_err := Some (TarError 1 (ErrorObj ''Error'' ''zlib: unexpected end of file''))\<rparr>"

text \<open>
  A source directory with two files, in a world where the file system refuses to create
  the directory \<^verbatim>\<open>guide\<close>, and one where it refuses to copy \<^verbatim>\<open>a.md\<close>.
\<close>

definition mkdir_refused_world :: world where
  "mkdir_refused_world =
     quiet_world\<lparr>source := Some [([''a.md''], ''# A''), ([''guide'', ''b.md''], ''# B'')],
                 glob_result := Inr [[''a.md''], [''guide'', ''b.md'']],
                 mkdir_err := (\<lambda>d. if d = [''guide''] then Some (ErrorObj ''Error'' ''EACCES'') else None)\<rparr>"

definition copy_refused_world :: world where
  "copy_refused_world =
     quiet_world\<lparr>source := Some [([''a.md''], ''# A''), ([''guide'', ''b.md''], ''# B'')],
                 glob_result := Inr [[''a.md''], [''guide'', ''b.md'']],
                 copy_err := (\<lambda>f. if f = [''a.md''] then Some (ErrorObj ''Error'' ''EACCES'') else None)\<rparr>"

section \<open>Basic facts\<close>

lemma truthy_Some [simp]: "truthy (Some u) = (u \<noteq> [])" and truthy_None [simp]: "truthy None = False"
  by (simp_all add: truthy_def)

lemma emit_simps [simp]:
  "trace (emit a s) = trace s @ [(a, dir s)]"
  "dir (emit a s) = dir s"
  "updateTimer (emit a s) = updateTimer s"
  "git (emit a s) = git s"
  by (simp_all add: emit_def)

lemma new_actions_append [simp]:
  "trace s' = trace s @ es \<Longrightarrow> new_actions s s' = map fst es"
  by (simp add: new_actions_def)

lemma searches_emit:
  "searches (emit a s) = searches s @ (case a of Search opts \<Rightarrow> [opts] | _ \<Rightarrow> [])"
  by (simp add: searches_def emit_def)

lemma readdir_items_Nil [simp]: "readdir_items [] = []"
  by (simp add: readdir_items_def)

section \<open>The request handler\<close>

lemma call_tool_success:
  assumes "fst (call_tool c w r s) = Return (ToolResult res False)"
  shows "\<exists>q pg. arguments r = ArgsObject q pg \<and> js_truthy q \<and> tool_name r = toolName c
           \<and> search w \<lparr>path = dataDir c, query = q, maxTokens = 10000\<rparr> = Inr res"
  using assms
  by (auto simp add: call_tool_def call_tool_body_def executeDocsSearch_def Let_def
      split: if_splits jsargs.splits sum.splits prod.splits completion.splits)

lemma call_tool_ok:
  assumes "tool_name r = toolName c" "arguments r = ArgsObject q pg" "js_truthy q"
    "search w \<lparr>path = dataDir c, query = q, maxTokens = 10000\<rparr> = Inr res"
  shows "fst (call_tool c w r s) = Return (ToolResult res False)"
    and "searches (snd (call_tool c w r s))
           = searches s @ [\<lparr>path = dataDir c, query = q, maxTokens = 10000\<rparr>]"
  using assms
  by (auto simp add: call_tool_def call_tool_body_def executeDocsSearch_def Let_def searches_emit
      split: if_splits jsargs.splits sum.splits prod.splits completion.splits)

text \<open>
  Claim C10.  A tool call that succeeds has called the search library exactly once, with
  the options \<open>path = dataDir\<close>, \<open>query\<close> = the \<^verbatim>\<open>query\<close> argument of the request and
  \<open>maxTokens = 10000\<close>; the same request with any other \<^verbatim>\<open>page\<close> argument makes the
  same call and returns the same result.
\<close>

theorem search_options_fixed_and_page_ignored:
  assumes "fst (call_tool c w r s) = Return (ToolResult res False)"
  shows "\<exists>q pg. arguments r = ArgsObject q pg
           \<and> searches (snd (call_tool c w r s))
               = searches s @ [\<lparr>path = dataDir c, query = q, maxTokens = 10000\<rparr>]
           \<and> (\<forall>pg'. fst (call_tool c w (r\<lparr>arguments := ArgsObject q pg'\<rparr>) s) = fst (call_tool c w r s)
                  \<and> searches (snd (call_tool c w (r\<lparr>arguments := ArgsObject q pg'\<rparr>) s))
                      = searches (snd (call_tool c w r s)))"
proof -
  from call_tool_success [OF assms] obtain q pg where
    a: "arguments r = ArgsObject q pg" and t: "js_truthy q" and n: "tool_name r = toolName c"
    and f: "search w \<lparr>path = dataDir c, query = q, maxTokens = 10000\<rparr> = Inr res"
    by blast
  have s1: "searches (snd (call_tool c w r s))
        = searches s @ [\<lparr>path = dataDir c, query = q, maxTokens = 10000\<rparr>]"
    using call_tool_ok(2) [OF n a t f] .
  have "\<And>pg'. fst (call_tool c w (r\<lparr>arguments := ArgsObject q pg'\<rparr>) s) = fst (call_tool c w r s)
        \<and> searches (snd (call_tool c w (r\<lparr>arguments := ArgsObject q pg'\<rparr>) s))
            = searches (snd (call_tool c w r s))"
  proof -
    fix pg'
    let ?r = "r\<lparr>arguments := ArgsObject q pg'\<rparr>"
    have n': "tool_name ?r = toolName c" using n by simp
    have a': "arguments ?r = ArgsObject q pg'" by simp
    show "fst (call_tool c w ?r s) = fst (call_tool c w r s)
        \<and> searches (snd (call_tool c w ?r s)) = searches (snd (call_tool c w r s))"
      using call_tool_ok [OF n' a' t f] assms s1 by simp
  qed
  with a s1 show ?thesis by blast
qed

theorem search_options_fixed_and_page_ignored_witness:
  "fst (call_tool acme_config quiet_world docs_request initial_state)
     = Return (ToolResult ''no results'' False)
   \<and> (\<exists>q pg. arguments docs_request = ArgsObject q pg
         \<and> searches (snd (call_tool acme_config quiet_world docs_request initial_state))
             = searches initial_state @ [\<lparr>path = dataDir acme_config, query = q, maxTokens = 10000\<rparr>]
         \<and> (\<forall>pg'. fst (call_tool acme_config quiet_world (docs_request\<lparr>arguments := ArgsObject q pg'\<rparr>) initial_state)
                    = fst (call_tool acme_config quiet_world docs_request initial_state)
                \<and> searches (snd (call_tool acme_config quiet_world (docs_request\<lparr>arguments := ArgsObject q pg'\<rparr>) initial_state))
                    = searches (snd (call_tool acme_config quiet_world docs_request initial_state))))"
proof -
  have h: "fst (call_tool acme_config quiet_world docs_request initial_state)
             = Return (ToolResult ''no results'' False)"
    by (simp add: call_tool_def call_tool_body_def executeDocsSearch_def Let_def js_truthy_def
        acme_config_def quiet_world_def docs_request_def)
  from h search_options_fixed_and_page_ignored [OF h] show ?thesis by blast
qed

lemma call_tool_never_exits: "fst (call_tool c w r s) \<noteq> Exit n"
  by (auto simp add: call_tool_def call_tool_body_def executeDocsSearch_def Let_def
      split: if_splits jsargs.splits sum.splits prod.splits completion.splits)

lemma serve_Cons:
  "fst (serve c w (r # rs) s) = fst (call_tool c w r s) # fst (serve c w rs (snd (call_tool c w r s)))"
proof (cases "call_tool c w r s")
  case (Pair x s1)
  then show ?thesis
    using call_tool_never_exits [of c w r s] by (cases x) (auto split: prod.splits)
qed

lemma serve_length: "length (fst (serve c w rs s)) = length rs"
  by (induction rs arbitrary: s) (simp_all add: serve_Cons del: serve.simps(2))

text \<open>
  Claim C9.  When the search library fails on a tool call, the handler of that request
  catches the failure and returns a tool result with \<open>isError\<close> set, whose text carries
  the message; the process does not exit, and the requests that follow are served.
\<close>

theorem search_failure_is_tool_error:
  assumes "tool_name r = toolName c" and "arguments r = ArgsObject q pg" and "js_truthy q"
    and "search w \<lparr>path = dataDir c, query = q, maxTokens = 10000\<rparr> = Inl e"
  shows "fst (call_tool c w r s)
           = Return (ToolResult (''Error executing '' @ tool_name r @ '': MCP error -32601: Error executing docs search: ''
                                  @ message_or_String e) True)
         \<and> fst (serve c w (r # rs) s)
             = fst (call_tool c w r s) # fst (serve c w rs (snd (call_tool c w r s)))
         \<and> length (fst (serve c w (r # rs) s)) = Suc (length rs)"
proof -
  have "fst (call_tool c w r s)
           = Return (ToolResult (''Error executing '' @ tool_name r @ '': MCP error -32601: Error executing docs search: ''
                                  @ message_or_String e) True)"
    using assms
    by (simp add: call_tool_def call_tool_body_def executeDocsSearch_def Let_def McpError_def
        code_str_def instanceof_Error_def message_of_def)
  moreover have "length (fst (serve c w (r # rs) s)) = Suc (length rs)"
    using serve_length [of c w "r # rs" s] by simp
  ultimately show ?thesis using serve_Cons [of c w r rs s] by simp
qed

theorem search_failure_is_tool_error_witness:
  "tool_name docs_request = toolName acme_config
   \<and> arguments docs_request = ArgsObject (JStr ''install'') (JNum 2)
   \<and> js_truthy (JStr ''install'')
   \<and> search failing_search_world \<lparr>path = dataDir acme_config, query = JStr ''install'', maxTokens = 10000\<rparr>
        = Inl (ErrorObj ''Error'' ''probe exited with code 1'')
   \<and> fst (serve acme_config failing_search_world [docs_request, docs_request] initial_state)
        = [Return (ToolResult ''Error executing search_docs: MCP error -32601: Error executing docs search: probe exited with code 1'' True),
           Return (ToolResult ''Error executing search_docs: MCP error -32601: Error executing docs search: probe exited with code 1'' True)]"
proof -
  have n: "tool_name docs_request = toolName acme_config"
    by (simp add: docs_request_def acme_config_def)
  have a: "arguments docs_request = ArgsObject (JStr ''install'') (JNum 2)"
    by (simp add: docs_request_def)
  have t: "js_truthy (JStr ''install'')" by (simp add: js_truthy_def)
  have f: "search failing_search_world \<lparr>path = dataDir acme_config, query = JStr ''install'', maxTokens = 10000\<rparr>
        = Inl (ErrorObj ''Error'' ''probe exited with code 1'')"
    by (simp add: failing_search_world_def)
  have m: "message_or_String (ErrorObj ''Error'' ''probe exited with code 1'') = ''probe exited with code 1''"
    by (simp add: message_or_String_def message_of_def)
  have one: "fst (call_tool acme_config failing_search_world docs_request s)
      = Return (ToolResult ''Error executing search_docs: MCP error -32601: Error executing docs search: probe exited with code 1'' True)" for s
    using search_failure_is_tool_error [OF n a t f, of s "[]"] m
    by (simp add: docs_request_def)
  have "fst (serve acme_config failing_search_world [docs_request, docs_request] initial_state)
      = fst (call_tool acme_config failing_search_world docs_request initial_state)
        # fst (serve acme_config failing_search_world [docs_request]
                 (snd (call_tool acme_config failing_search_world docs_request initial_state)))"
    using search_failure_is_tool_error [OF n a t f, of initial_state "[docs_request]"] by simp
  moreover have "fst (serve acme_config failing_search_world [docs_request] s)
      = [fst (call_tool acme_config failing_search_world docs_request s)]" for s
    using search_failure_is_tool_error [OF n a t f, of s "[]"] by simp
  ultimately show ?thesis using n a t f one by simp
qed

section \<open>The update cycle\<close>

lemma checkForUpdates_returns: "fst (checkForUpdates c cy s) = Return ()"
  by (simp add: checkForUpdates_def split: prod.split option.split)

lemma checkForUpdates_timer:
  assumes "truthy (gitUrl c)" "0 < autoUpdateInterval c"
  shows "updateTimer (snd (checkForUpdates c cy s)) = Some (autoUpdateInterval c * 60 * 1000)"
    and "\<exists>es. trace (snd (checkForUpdates c cy s)) = trace s @ es @ [(SetTimeout (autoUpdateInterval c * 60 * 1000), dir s)]"
  using assms
  by (simp_all add: checkForUpdates_def schedule_next_def sync_body_def Let_def
      split: prod.split option.split sum.split bool.split)

lemma timer_fires_all:
  assumes "truthy (gitUrl c)" "0 < autoUpdateInterval c"
  shows "updateTimer s \<noteq> None \<Longrightarrow>
     fst (timer_fires c cys s) = replicate (length cys) (Return ())
     \<and> updateTimer (snd (timer_fires c cys s)) \<noteq> None"
proof (induction cys arbitrary: s)
  case Nil
  then show ?case by simp
next
  case (Cons cy cys)
  from Cons.prems obtain d where d: "updateTimer s = Some d" by blast
  obtain x s1 where r: "checkForUpdates c cy (s\<lparr>updateTimer := None\<rparr>) = (x, s1)"
    by (cases "checkForUpdates c cy (s\<lparr>updateTimer := None\<rparr>)")
  have x: "x = Return ()"
    using checkForUpdates_returns [of c cy "s\<lparr>updateTimer := None\<rparr>"] r by simp
  have t: "updateTimer s1 \<noteq> None"
    using checkForUpdates_timer(1) [OF assms, of cy "s\<lparr>updateTimer := None\<rparr>"] r by simp
  from Cons.IH [OF t] show ?case
    using d r x by (auto split: prod.split)
qed

lemma cycle_error_logged:
  assumes "truthy (gitUrl c)" "git s"
  shows "isRepo cy = Inr True \<Longrightarrow> fetch_err cy = Some e \<Longrightarrow>
           Log (ErrorCheckingForUpdates e) \<in> set (new_actions s (snd (checkForUpdates c cy s)))"
    and "isRepo cy = Inr True \<Longrightarrow> fetch_err cy = None \<Longrightarrow> status cy = Inr (b, t) \<Longrightarrow> 0 < b
          \<Longrightarrow> pull_err cy = Some e \<Longrightarrow>
           Log (ErrorCheckingForUpdates e) \<in> set (new_actions s (snd (checkForUpdates c cy s)))"
  using assms
  by (simp_all add: checkForUpdates_def schedule_next_def sync_body_def Let_def)

lemma cycle_trace_not_repo:
  assumes "truthy (gitUrl c)" "git s" "isRepo cy = Inr False"
  shows "new_actions s (snd (checkForUpdates c cy s))
      = [Log CheckingForUpdates, CheckIsRepo, Log NotAGitRepository]
        @ (if 0 < autoUpdateInterval c then [SetTimeout (autoUpdateInterval c * 60 * 1000)] else [])"
  using assms
  by (simp add: checkForUpdates_def schedule_next_def sync_body_def Let_def)

lemma cycle_trace_repo:
  assumes "truthy (gitUrl c)" "git s" "isRepo cy = Inr True" "fetch_err cy = None" "status cy = Inr (b, t)"
  shows "new_actions s (snd (checkForUpdates c cy s))
      = [Log CheckingForUpdates, CheckIsRepo, GitFetch, GitStatus]
        @ (if 0 < b
           then [Log (BehindPulling b t), GitPull ''origin'' (gitRef c)]
                @ (case pull_err cy of None \<Rightarrow> [Log UpdatedSuccessfully]
                   | Some e \<Rightarrow> [Log (ErrorCheckingForUpdates e)])
           else [Log UpToDate])
        @ (if 0 < autoUpdateInterval c then [SetTimeout (autoUpdateInterval c * 60 * 1000)] else [])"
  using assms
  by (simp add: checkForUpdates_def schedule_next_def sync_body_def Let_def split: option.split)


text \<open>
  Claim C7.  With a repository configured and a positive interval, an update cycle always
  returns normally: an error of the fetch or of the pull is caught and logged, and the
  last thing the cycle does is to arm the next timer.  Hence every cycle of a running
  scheduler completes and leaves a timer pending, whatever git answers.
\<close>

theorem update_cycle_errors_caught_and_timer_rearmed:
  assumes "truthy (gitUrl c)" and "0 < autoUpdateInterval c"
  shows "fst (checkForUpdates c cy s) = Return ()
     \<and> updateTimer (snd (checkForUpdates c cy s)) = Some (autoUpdateInterval c * 60 * 1000)
     \<and> (\<exists>es. new_actions s (snd (checkForUpdates c cy s))
               = es @ [SetTimeout (autoUpdateInterval c * 60 * 1000)])
     \<and> (git s \<and> isRepo cy = Inr True \<and> fetch_err cy = Some e
          \<longrightarrow> Log (ErrorCheckingForUpdates e) \<in> set (new_actions s (snd (checkForUpdates c cy s))))
     \<and> (git s \<and> isRepo cy = Inr True \<and> fetch_err cy = None \<and> status cy = Inr (b, t) \<and> 0 < b
          \<and> pull_err cy = Some e
          \<longrightarrow> Log (ErrorCheckingForUpdates e) \<in> set (new_actions s (snd (checkForUpdates c cy s))))
     \<and> (updateTimer s \<noteq> None
          \<longrightarrow> fst (timer_fires c cys s) = replicate (length cys) (Return ())
              \<and> updateTimer (snd (timer_fires c cys s)) \<noteq> None)"
proof -
  have a: "fst (checkForUpdates c cy s) = Return ()"
    by (rule checkForUpdates_returns)
  have b: "updateTimer (snd (checkForUpdates c cy s)) = Some (autoUpdateInterval c * 60 * 1000)"
    by (rule checkForUpdates_timer(1) [OF assms])
  from checkForUpdates_timer(2) [OF assms, of cy s]
  have d: "\<exists>es. new_actions s (snd (checkForUpdates c cy s))
               = es @ [SetTimeout (autoUpdateInterval c * 60 * 1000)]"
    by (auto simp add: new_actions_def)
  have f: "git s \<and> isRepo cy = Inr True \<and> fetch_err cy = Some e
          \<longrightarrow> Log (ErrorCheckingForUpdates e) \<in> set (new_actions s (snd (checkForUpdates c cy s)))"
    using cycle_error_logged(1) [OF assms(1)] by blast
  have p: "git s \<and> isRepo cy = Inr True \<and> fetch_err cy = None \<and> status cy = Inr (b, t) \<and> 0 < b
          \<and> pull_err cy = Some e
          \<longrightarrow> Log (ErrorCheckingForUpdates e) \<in> set (new_actions s (snd (checkForUpdates c cy s)))"
    using cycle_error_logged(2) [OF assms(1)] by blast
  have m: "updateTimer s \<noteq> None
          \<longrightarrow> fst (timer_fires c cys s) = replicate (length cys) (Return ())
              \<and> updateTimer (snd (timer_fires c cys s)) \<noteq> None"
    using timer_fires_all [OF assms] by blast
  from a b d f p m show ?thesis by blast
qed

theorem update_cycle_errors_caught_and_timer_rearmed_witness:
  "truthy (gitUrl auto_config) \<and> 0 < autoUpdateInterval auto_config
   \<and> fst (checkForUpdates auto_config cycle_fetch_fails serving_state) = Return ()
   \<and> updateTimer (snd (checkForUpdates auto_config cycle_fetch_fails serving_state)) = Some 300000
   \<and> Log (ErrorCheckingForUpdates (ErrorObj ''GitError'' ''could not resolve host''))
        \<in> set (new_actions serving_state (snd (checkForUpdates auto_config cycle_fetch_fails serving_state)))
   \<and> fst (timer_fires auto_config [cycle_fetch_fails, cycle_behind, cycle_not_repo] serving_state)
        = [Return (), Return (), Return ()]
   \<and> updateTimer (snd (timer_fires auto_config [cycle_fetch_fails, cycle_behind, cycle_not_repo] serving_state))
        \<noteq> None"
proof -
  have h1: "truthy (gitUrl auto_config)"
    by (simp add: auto_config_def acme_config_def truthy_def)
  have h2: "0 < autoUpdateInterval auto_config"
    by (simp add: auto_config_def)
  have g: "git serving_state \<and> isRepo cycle_fetch_fails = Inr True
       \<and> fetch_err cycle_fetch_fails = Some (ErrorObj ''GitError'' ''could not resolve host'')"
    by (simp add: serving_state_def cycle_fetch_fails_def cycle_behind_def)
  have u: "updateTimer serving_state \<noteq> None" by (simp add: serving_state_def)
  have i: "autoUpdateInterval auto_config * 60 * 1000 = 300000" by (simp add: auto_config_def)
  from update_cycle_errors_caught_and_timer_rearmed
         [OF h1 h2, of cycle_fetch_fails serving_state
            "ErrorObj ''GitError'' ''could not resolve host''" 0 "[]"
            "[cycle_fetch_fails, cycle_behind, cycle_not_repo]"]
  show ?thesis using h1 h2 g u i by simp
qed

text \<open>
  Claim C6 says that every cycle first fetches.  A cycle that finds the data directory not
  to be a repository returns before the fetch.
\<close>

theorem cycle_without_repository_fetches_nothing:
  "truthy (gitUrl auto_config) \<and> git serving_state
   \<and> GitFetch \<notin> set (new_actions serving_state (snd (checkForUpdates auto_config cycle_not_repo serving_state)))"
  by (simp add: checkForUpdates_def schedule_next_def sync_body_def Let_def auto_config_def
      acme_config_def truthy_def serving_state_def cycle_not_repo_def cycle_behind_def)

text \<open>
  Claim C6, amended.  A cycle first asks whether the data directory is a repository and,
  if not, does nothing more than to log that and to arm the timer.  Otherwise it fetches
  and then reads the status; when both succeed it pulls the configured ref from
  \<^verbatim>\<open>origin\<close> if and only if the branch is behind by one commit or more, logging the
  count before the pull, and pulls nothing when the branch is not behind.
\<close>

theorem update_cycle_fetches_then_pulls_iff_behind:
  assumes "truthy (gitUrl c)" and "git s"
  shows "(isRepo cy = Inr False \<longrightarrow>
            new_actions s (snd (checkForUpdates c cy s))
              = [Log CheckingForUpdates, CheckIsRepo, Log NotAGitRepository]
                @ (if 0 < autoUpdateInterval c then [SetTimeout (autoUpdateInterval c * 60 * 1000)] else []))
       \<and> (isRepo cy = Inr True \<and> fetch_err cy = None \<and> status cy = Inr (b, t) \<longrightarrow>
            new_actions s (snd (checkForUpdates c cy s))
              = [Log CheckingForUpdates, CheckIsRepo, GitFetch, GitStatus]
                @ (if 0 < b
                   then [Log (BehindPulling b t), GitPull ''origin'' (gitRef c)]
                        @ (case pull_err cy of None \<Rightarrow> [Log UpdatedSuccessfully]
                           | Some e \<Rightarrow> [Log (ErrorCheckingForUpdates e)])
                   else [Log UpToDate])
                @ (if 0 < autoUpdateInterval c then [SetTimeout (autoUpdateInterval c * 60 * 1000)] else [])
            \<and> (GitPull ''origin'' (gitRef c) \<in> set (new_actions s (snd (checkForUpdates c cy s)))) = (0 < b))"
proof -
  have 1: "isRepo cy = Inr False \<longrightarrow>
            new_actions s (snd (checkForUpdates c cy s))
              = [Log CheckingForUpdates, CheckIsRepo, Log NotAGitRepository]
                @ (if 0 < autoUpdateInterval c then [SetTimeout (autoUpdateInterval c * 60 * 1000)] else [])"
    using cycle_trace_not_repo [OF assms] by blast
  have 2: "new_actions s (snd (checkForUpdates c cy s))
              = [Log CheckingForUpdates, CheckIsRepo, GitFetch, GitStatus]
                @ (if 0 < b
                   then [Log (BehindPulling b t), GitPull ''origin'' (gitRef c)]
                        @ (case pull_err cy of None \<Rightarrow> [Log UpdatedSuccessfully]
                           | Some e \<Rightarrow> [Log (ErrorCheckingForUpdates e)])
                   else [Log UpToDate])
                @ (if 0 < autoUpdateInterval c then [SetTimeout (autoUpdateInterval c * 60 * 1000)] else [])"
    if "isRepo cy = Inr True" "fetch_err cy = None" "status cy = Inr (b, t)"
    using cycle_trace_repo [OF assms that] .
  have 3: "(GitPull ''origin'' (gitRef c) \<in> set (new_actions s (snd (checkForUpdates c cy s)))) = (0 < b)"
    if "isRepo cy = Inr True" "fetch_err cy = None" "status cy = Inr (b, t)"
    unfolding 2 [OF that] by (simp split: option.split)
  from 1 2 3 show ?thesis by blast
qed

theorem update_cycle_fetches_then_pulls_iff_behind_witness:
  "truthy (gitUrl auto_config) \<and> git serving_state
   \<and> isRepo cycle_behind = Inr True \<and> fetch_err cycle_behind = None
   \<and> status cycle_behind = Inr (3, ''origin/main'')
   \<and> new_actions serving_state (snd (checkForUpdates auto_config cycle_behind serving_state))
       = [Log CheckingForUpdates, CheckIsRepo, GitFetch, GitStatus,
          Log (BehindPulling 3 ''origin/main''), GitPull ''origin'' (Some ''main''),
          Log UpdatedSuccessfully, SetTimeout 300000]"
proof -
  have h1: "truthy (gitUrl auto_config)"
    by (simp add: auto_config_def acme_config_def truthy_def)
  have h2: "git serving_state" by (simp add: serving_state_def)
  have g: "isRepo cycle_behind = Inr True \<and> fetch_err cycle_behind = None
       \<and> status cycle_behind = Inr (3, ''origin/main'') \<and> pull_err cycle_behind = None"
    by (simp add: cycle_behind_def)
  have i: "autoUpdateInterval auto_config = 5 \<and> gitRef auto_config = Some ''main''"
    by (simp add: auto_config_def acme_config_def)
  from update_cycle_fetches_then_pulls_iff_behind
         [OF h1 h2, of cycle_behind 3 "''origin/main''"]
  show ?thesis using h1 h2 g i by simp
qed

section \<open>Provisioning from a repository\<close>

text \<open>
  Claim C1, at run time.  With a repository configured and no positive interval, \<^verbatim>\<open>run\<close>
  exits with code 1 in every world: the method it calls for the archive download does not
  exist, so no request is made, no clone is attempted and the data directory is left as
  it was.
\<close>

theorem runtime_archive_branch_exits_without_download:
  assumes "truthy (gitUrl c)" and "\<not> 0 < autoUpdateInterval c"
  shows "fst (run c w cy s) = Exit 1
       \<and> new_actions s (snd (run c w cy s))
           = [Log (FailedTarball (ErrorObj ''TypeError'' ''this.downloadAndExtractTarballRuntime is not a function''))]
       \<and> dir (snd (run c w cy s)) = dir s"
  using assms by (simp add: run_def init_content_def)

theorem runtime_archive_branch_exits_without_download_witness:
  "truthy (gitUrl acme_config) \<and> \<not> 0 < autoUpdateInterval acme_config
   \<and> fst (run acme_config quiet_world cycle_behind initial_state) = Exit 1
   \<and> new_actions initial_state (snd (run acme_config quiet_world cycle_behind initial_state))
       = [Log (FailedTarball (ErrorObj ''TypeError'' ''this.downloadAndExtractTarballRuntime is not a function''))]"
proof -
  have h1: "truthy (gitUrl acme_config)" by (simp add: acme_config_def)
  have h2: "\<not> 0 < autoUpdateInterval acme_config" by (simp add: acme_config_def)
  from runtime_archive_branch_exits_without_download [OF h1 h2, of quiet_world cycle_behind initial_state]
  show ?thesis using h1 h2 by simp
qed

text \<open>
  The build script does what the run-time path misses: a failed archive request, or a URL
  the pattern does not match, is followed by the clone, and only a failed clone fails the
  build.
\<close>

lemma build_archive_failure_falls_back_to_clone:
  assumes "gitUrl c = Some url" and "url \<noteq> []" and "\<not> 0 < autoUpdateInterval c"
    and "ensureDir_err w = None" and "emptyDir_err w = None"
    and "gitUrl_match url = Some (owner, repo)"
    and "http_get w (tarballUrl owner repo (ref_or_main c)) = Inl e"
  shows "new_actions s (snd (prepareDataDir c w s))
           = [EnsureDir [], EmptyDir, HttpGet (tarballUrl owner repo (ref_or_main c)),
              Log (ErrorDownloading (message_of e)), Log FallingBackToClone,
              GitClone (gitUrl c) (dataDir c) (gitRef c)]
             @ (case clone_err w of None \<Rightarrow> []
                | Some ce \<Rightarrow> [Log (ErrorCloning ce), Log (FallbackCloneFailed ce)])"
    and "fst (prepareDataDir c w s) = (case clone_err w of None \<Rightarrow> Return () | Some ce \<Rightarrow> Throw ce)"
    and "fst (build c (w\<lparr>config_exists := True\<rparr>) s)
           = (case clone_err w of None \<Rightarrow> (case chmod_err w of None \<Rightarrow> Return () | Some x \<Rightarrow> Exit 1)
              | Some ce \<Rightarrow> Exit 1)"
  using assms
  by (simp_all add: build_def build_steps_def createDefaultConfig_def prepareDataDir_def
      fs_ensureDataDir_def fs_emptyDir_def downloadAndExtractTarball_def download_extract_def
      cloneGitRepo_def git_clone_def readdir_items_def dir_tree_def Let_def split: option.split)

lemma build_unparseable_url_falls_back_to_clone:
  assumes "gitUrl c = Some url" and "url \<noteq> []" and "\<not> 0 < autoUpdateInterval c"
    and "ensureDir_err w = None" and "emptyDir_err w = None"
    and "gitUrl_match url = None"
  shows "new_actions s (snd (prepareDataDir c w s))
           = [EnsureDir [], EmptyDir, Log (CannotDetermineTarballUrl url),
              GitClone (gitUrl c) (dataDir c) (gitRef c)]
             @ (case clone_err w of None \<Rightarrow> [] | Some ce \<Rightarrow> [Log (ErrorCloning ce)])"
    and "fst (prepareDataDir c w s) = (case clone_err w of None \<Rightarrow> Return () | Some ce \<Rightarrow> Throw ce)"
  using assms
  by (simp_all add: prepareDataDir_def
      fs_ensureDataDir_def fs_emptyDir_def downloadAndExtractTarball_def download_extract_def
      cloneGitRepo_def git_clone_def readdir_items_def dir_tree_def Let_def split: option.split)

text \<open>
  Two paths of the build script end otherwise.  When the tar stream fails after it has
  written entries, the clone is started on what it left; git refuses a directory with
  entries, so the fallback fails and the build with it.  When the response stream breaks
  the promise never settles: the build ends with exit code 0, with neither the fallback
  nor the step after the copy.
\<close>

lemma build_fallback_clone_after_failed_extraction:
  assumes "gitUrl c = Some url" and "url \<noteq> []" and "\<not> 0 < autoUpdateInterval c"
    and "ensureDir_err w = None" and "emptyDir_err w = None"
    and "gitUrl_match url = Some (owner, repo)"
    and "http_get w (tarballUrl owner repo (ref_or_main c)) = Inr es"
    and "extract_err w = Some (TarError k e)"
    and "readdir_items (fold write_entry (take k (tar_strip 1 es)) []) \<noteq> []"
  shows "fst (prepareDataDir c w s)
           = Throw (ErrorObj ''GitError'' ''destination path already exists and is not an empty directory'')"
    and "new_actions s (snd (prepareDataDir c w s))
           = [EnsureDir [], EmptyDir, HttpGet (tarballUrl owner repo (ref_or_main c)), TarExtract 1,
              Log (ErrorDownloading (message_of e)), Log FallingBackToClone,
              GitClone (gitUrl c) (dataDir c) (gitRef c),
              Log (ErrorCloning (ErrorObj ''GitError'' ''destination path already exists and is not an empty directory'')),
              Log (FallbackCloneFailed (ErrorObj ''GitError'' ''destination path already exists and is not an empty directory''))]"
    and "dir (snd (prepareDataDir c w s)) = Some (fold write_entry (take k (tar_strip 1 es)) [])"
    and "fst (build c w s) = Exit 1"
  using assms
  by (auto simp add: build_def build_steps_def createDefaultConfig_def prepareDataDir_def
      fs_ensureDataDir_def fs_emptyDir_def downloadAndExtractTarball_def download_extract_def
      tar_x_def cloneGitRepo_def git_clone_def dir_tree_def Let_def split: option.split)

lemma build_response_stream_break_ends_without_fallback:
  assumes "gitUrl c = Some url" and "url \<noteq> []" and "\<not> 0 < autoUpdateInterval c"
    and "ensureDir_err w = None" and "emptyDir_err w = None"
    and "gitUrl_match url = Some (owner, repo)"
    and "http_get w (tarballUrl owner repo (ref_or_main c)) = Inr es"
    and "extract_err w = Some (ResponseError k)"
    and "config_exists w \<or> writeFile_err w = None"
  shows "fst (build c w s) = Exit 0"
    and "new_actions s (snd (prepareDataDir c w s))
           = [EnsureDir [], EmptyDir, HttpGet (tarballUrl owner repo (ref_or_main c)), TarExtract 1]"
  using assms
  by (auto simp add: build_def build_steps_def createDefaultConfig_def prepareDataDir_def
      fs_ensureDataDir_def fs_emptyDir_def downloadAndExtractTarball_def download_extract_def
      tar_x_def Let_def)

text \<open>
  Claim C2, for a data directory that is not yet a repository.  \<^verbatim>\<open>run\<close> clones and
  connects, but runs no update cycle and arms no timer: the call of \<^verbatim>\<open>checkForUpdates\<close>
  stands in the branch for a directory that is a repository already.
\<close>

theorem fresh_clone_starts_no_scheduler:
  assumes "truthy (gitUrl c)" and "0 < autoUpdateInterval c" and "isRepo_start w = Inr False"
  shows "updateTimer (snd (run c w cy s)) = updateTimer s
       \<and> GitFetch \<notin> set (new_actions s (snd (run c w cy s)))
       \<and> SetTimeout (autoUpdateInterval c * 60 * 1000) \<notin> set (new_actions s (snd (run c w cy s)))
       \<and> (dir s = Some [] \<and> readdir_err w = None \<and> clone_err w = None \<and> connect_err w = None
            \<longrightarrow> fst (run c w cy s) = Return ()
                \<and> new_actions s (snd (run c w cy s))
                    = [CheckIsRepo, ReadDir, GitClone (gitUrl c) (dataDir c) (gitRef c), Connect])"
  using assms
  by (simp add: run_def init_content_def initial_clone_def clone_steps_def fs_readdir_def
      fs_emptyDir_def git_clone_def readdir_items_def dir_tree_def Let_def
      split: option.split sum.split prod.split)

theorem fresh_clone_starts_no_scheduler_witness:
  "truthy (gitUrl auto_config) \<and> 0 < autoUpdateInterval auto_config \<and> isRepo_start quiet_world = Inr False
   \<and> fst (run auto_config quiet_world cycle_behind (initial_state\<lparr>dir := Some []\<rparr>)) = Return ()
   \<and> updateTimer (snd (run auto_config quiet_world cycle_behind (initial_state\<lparr>dir := Some []\<rparr>))) = None
   \<and> new_actions (initial_state\<lparr>dir := Some []\<rparr>)
         (snd (run auto_config quiet_world cycle_behind (initial_state\<lparr>dir := Some []\<rparr>)))
       = [CheckIsRepo, ReadDir,
          GitClone (Some ''https://github.com/acme/docs'') ''data'' (Some ''main''), Connect]"
proof -
  have h1: "truthy (gitUrl auto_config)" by (simp add: auto_config_def acme_config_def)
  have h2: "0 < autoUpdateInterval auto_config" by (simp add: auto_config_def)
  have h3: "isRepo_start quiet_world = Inr False" by (simp add: quiet_world_def)
  have w: "readdir_err quiet_world = None \<and> clone_err quiet_world = None \<and> connect_err quiet_world = None"
    by (simp add: quiet_world_def)
  have c: "gitUrl auto_config = Some ''https://github.com/acme/docs'' \<and> dataDir auto_config = ''data''
           \<and> gitRef auto_config = Some ''main''"
    by (simp add: auto_config_def acme_config_def)
  have i: "dir (initial_state\<lparr>dir := Some []\<rparr>) = Some []
           \<and> updateTimer (initial_state\<lparr>dir := Some []\<rparr>) = None"
    by (simp add: initial_state_def)
  from fresh_clone_starts_no_scheduler [OF h1 h2 h3, of "cycle_behind" "initial_state\<lparr>dir := Some []\<rparr>"]
  show ?thesis using h1 h2 h3 w c i by simp
qed

text \<open>
  In the branch for an existing repository one cycle runs at once and leaves the timer
  armed with the configured interval.
\<close>

lemma existing_clone_runs_one_cycle_and_arms_timer:
  assumes "truthy (gitUrl c)" and "0 < autoUpdateInterval c" and "isRepo_start w = Inr True"
    and "connect_err w = None"
  shows "fst (run c w cy s) = Return ()"
    and "updateTimer (snd (run c w cy s)) = Some (autoUpdateInterval c * 60 * 1000)"
    and "trace (snd (run c w cy s))
           = trace (snd (checkForUpdates c cy (emit CheckIsRepo (s\<lparr>git := True\<rparr>))))
             @ [(Connect, dir (snd (checkForUpdates c cy (emit CheckIsRepo (s\<lparr>git := True\<rparr>)))))]"
proof -
  let ?s1 = "emit CheckIsRepo (s\<lparr>git := True\<rparr>)"
  obtain x s2 where r: "checkForUpdates c cy ?s1 = (x, s2)"
    by (cases "checkForUpdates c cy ?s1")
  have x: "x = Return ()" using checkForUpdates_returns [of c cy ?s1] r by simp
  have t: "updateTimer s2 = Some (autoUpdateInterval c * 60 * 1000)"
    using checkForUpdates_timer(1) [OF assms(1,2), of cy ?s1] r by simp
  show "fst (run c w cy s) = Return ()"
    using assms r x by (simp add: run_def init_content_def Let_def)
  show "updateTimer (snd (run c w cy s)) = Some (autoUpdateInterval c * 60 * 1000)"
    using assms r x t by (simp add: run_def init_content_def Let_def)
  show "trace (snd (run c w cy s))
           = trace (snd (checkForUpdates c cy ?s1)) @ [(Connect, dir (snd (checkForUpdates c cy ?s1)))]"
    using assms r x by (simp add: run_def init_content_def Let_def)
qed

section \<open>The archive download\<close>

lemma strip_dot_git_suffix: "repo \<noteq> [] \<Longrightarrow> strip_dot_git (repo @ ''.git'') = repo"
  by (simp add: strip_dot_git_def)

lemma strip_dot_git_plain:
  assumes "\<forall>stem. stem \<noteq> [] \<longrightarrow> repo \<noteq> stem @ ''.git''"
  shows "strip_dot_git repo = repo"
proof (cases "4 < length repo \<and> drop (length repo - 4) repo = ''.git''")
  case True
  then have "repo = take (length repo - 4) repo @ ''.git''"
    by (metis append_take_drop_id)
  moreover have "take (length repo - 4) repo \<noteq> []" using True by auto
  ultimately show ?thesis using assms by blast
next
  case False
  then show ?thesis by (auto simp add: strip_dot_git_def)
qed

lemma match_here_github:
  assumes "owner \<noteq> []" and "CHR ''/'' \<notin> set owner" and "rest \<noteq> []" and "CHR ''/'' \<notin> set rest"
  shows "match_here (''github.com/'' @ owner @ ''/'' @ rest) = Some (owner, strip_dot_git rest)"
proof -
  have o: "\<And>x. x \<in> set owner \<Longrightarrow> x \<noteq> CHR ''/''"
    using assms(2) by auto
  have tw: "takeWhile (\<lambda>c. c \<noteq> CHR ''/'') (owner @ CHR ''/'' # rest) = owner"
    using takeWhile_append2 [of owner "\<lambda>c. c \<noteq> CHR ''/''" "CHR ''/'' # rest"] o by simp
  have dw: "dropWhile (\<lambda>c. c \<noteq> CHR ''/'') (owner @ CHR ''/'' # rest) = CHR ''/'' # rest"
    using dropWhile_append2 [of owner "\<lambda>c. c \<noteq> CHR ''/''" "CHR ''/'' # rest"] o by simp
  show ?thesis
    using assms tw dw by (simp add: match_here_def Let_def)
qed

lemma gitUrl_match_https:
  assumes "match_here u = Some m"
  shows "gitUrl_match (''https://'' @ u) = Some m"
proof -
  obtain x xs where u: "u = x # xs" using assms by (cases u) (auto simp add: match_here_def)
  have "match_here (''https://'' @ u) = None" by (simp add: match_here_def)
  moreover have "match_here (''ttps://'' @ u) = None" by (simp add: match_here_def)
  moreover have "match_here (''tps://'' @ u) = None" by (simp add: match_here_def)
  moreover have "match_here (''ps://'' @ u) = None" by (simp add: match_here_def)
  moreover have "match_here (''s://'' @ u) = None" by (simp add: match_here_def)
  moreover have "match_here (''://'' @ u) = None" by (simp add: match_here_def)
  moreover have "match_here (''//'' @ u) = None" by (simp add: match_here_def)
  moreover have "match_here (''/'' @ u) = None" by (simp add: match_here_def)
  ultimately show ?thesis using assms u by simp
qed

lemma gitUrl_match_shape:
  assumes "owner \<noteq> []" and "CHR ''/'' \<notin> set owner" and "repo \<noteq> []" and "CHR ''/'' \<notin> set repo"
    and "sfx = [] \<or> sfx = ''.git''"
    and "sfx = [] \<longrightarrow> (\<forall>stem. stem \<noteq> [] \<longrightarrow> repo \<noteq> stem @ ''.git'')"
  shows "gitUrl_match (''https://github.com/'' @ owner @ ''/'' @ repo @ sfx) = Some (owner, repo)"
proof -
  have r: "repo @ sfx \<noteq> []" "CHR ''/'' \<notin> set (repo @ sfx)"
    using assms(3,4,5) by auto
  have s: "strip_dot_git (repo @ sfx) = repo"
    using assms(3,5,6) strip_dot_git_suffix [of repo] strip_dot_git_plain [of repo] by auto
  have "match_here (''github.com/'' @ owner @ ''/'' @ (repo @ sfx)) = Some (owner, repo)"
    using match_here_github [OF assms(1,2) r] s by simp
  from gitUrl_match_https [OF this] show ?thesis by simp
qed

lemma tar_strip_wrapper:
  "tar_strip (Suc 0) (map (\<lambda>e. (wd # fst e, snd e)) es) = filter (\<lambda>e. fst e \<noteq> []) es"
  by (induction es) (auto simp add: tar_strip_def)

text \<open>
  Claim C5.  For a repository URL \<^verbatim>\<open>https://github.com/<owner>/<repo>\<close>, with or without a
  final \<^verbatim>\<open>.git\<close>, the archive download requests exactly
  \<^verbatim>\<open>https://github.com/<owner>/<repo>/archive/<ref>.tar.gz\<close>, where the ref is \<^verbatim>\<open>main\<close>
  when none is configured, and extracts with one leading path component stripped: for an
  archive whose entries all lie below one wrapper directory the data directory receives
  the entries at their paths below the wrapper.  Owner and repository name are non-empty
  and free of slashes, and the name written without the suffix does not itself end in
  \<^verbatim>\<open>.git\<close>.
\<close>

theorem archive_url_and_strip_of_one_component:
  assumes "owner \<noteq> []" and "CHR ''/'' \<notin> set owner" and "repo \<noteq> []" and "CHR ''/'' \<notin> set repo"
    and "sfx = [] \<or> sfx = ''.git''"
    and "sfx = [] \<longrightarrow> (\<forall>stem. stem \<noteq> [] \<longrightarrow> repo \<noteq> stem @ ''.git'')"
    and "gitUrl c = Some (''https://github.com/'' @ owner @ ''/'' @ repo @ sfx)"
    and "http_get w (''https://github.com/'' @ owner @ ''/'' @ repo @ ''/archive/'' @ ref_or_main c @ ''.tar.gz'')
           = Inr (map (\<lambda>e. (wd # fst e, snd e)) es)"
    and "extract_err w = None" and "dir s = Some t"
  shows "fst (downloadAndExtractTarball c w s) = Return ()
       \<and> new_actions s (snd (downloadAndExtractTarball c w s))
           = [HttpGet (''https://github.com/'' @ owner @ ''/'' @ repo @ ''/archive/'' @ ref_or_main c @ ''.tar.gz''),
              TarExtract 1]
       \<and> dir (snd (downloadAndExtractTarball c w s))
           = Some (fold write_entry (filter (\<lambda>e. fst e \<noteq> []) es) t)
       \<and> (gitRef c = None \<or> gitRef c = Some [] \<longrightarrow> ref_or_main c = ''main'')
       \<and> (\<forall>r. gitRef c = Some r \<and> r \<noteq> [] \<longrightarrow> ref_or_main c = r)"
proof -
  have m: "gitUrl_match (''https://github.com/'' @ owner @ ''/'' @ repo @ sfx) = Some (owner, repo)"
    by (rule gitUrl_match_shape [OF assms(1-6)])
  have u: "tarballUrl owner repo (ref_or_main c)
        = ''https://github.com/'' @ owner @ ''/'' @ repo @ ''/archive/'' @ ref_or_main c @ ''.tar.gz''"
    by (simp add: tarballUrl_def)
  have d: "download_extract w (tarballUrl owner repo (ref_or_main c)) s
        = (Return (), (emit (TarExtract 1) (emit (HttpGet (tarballUrl owner repo (ref_or_main c))) s))
                   \<lparr>dir := Some (fold write_entry (filter (\<lambda>e. fst e \<noteq> []) es) t)\<rparr>)"
    using assms(8-10) u
    by (simp add: download_extract_def tar_x_def tar_strip_wrapper Let_def)
  have r: "downloadAndExtractTarball c w s
        = (Return (), (emit (TarExtract 1) (emit (HttpGet (tarballUrl owner repo (ref_or_main c))) s))
                   \<lparr>dir := Some (fold write_entry (filter (\<lambda>e. fst e \<noteq> []) es) t)\<rparr>)"
    using assms(7) m d by (simp add: downloadAndExtractTarball_def)
  have g: "(gitRef c = None \<or> gitRef c = Some [] \<longrightarrow> ref_or_main c = ''main'')
       \<and> (\<forall>r. gitRef c = Some r \<and> r \<noteq> [] \<longrightarrow> ref_or_main c = r)"
    by (auto simp add: ref_or_main_def)
  show ?thesis using r u g by (simp add: new_actions_def)
qed

theorem archive_url_and_strip_of_one_component_witness:
  "gitUrl acme_config = Some (''https://github.com/'' @ ''acme'' @ ''/'' @ ''docs'' @ [])
   \<and> http_get archive_world ''https://github.com/acme/docs/archive/main.tar.gz''
       = Inr (map (\<lambda>e. (''docs-main'' # fst e, snd e))
                [([''README.md''], ''# docs''), ([''guide'', ''install.md''], ''npm install'')])
   \<and> fst (downloadAndExtractTarball acme_config archive_world (initial_state\<lparr>dir := Some []\<rparr>)) = Return ()
   \<and> new_actions (initial_state\<lparr>dir := Some []\<rparr>)
        (snd (downloadAndExtractTarball acme_config archive_world (initial_state\<lparr>dir := Some []\<rparr>)))
       = [HttpGet ''https://github.com/acme/docs/archive/main.tar.gz'', TarExtract 1]
   \<and> dir (snd (downloadAndExtractTarball acme_config archive_world (initial_state\<lparr>dir := Some []\<rparr>)))
       = Some [([''README.md''], File ''# docs''), ([''guide''], Dir),
               ([''guide'', ''install.md''], File ''npm install'')]"
proof -
  have o: "''acme'' \<noteq> []" "CHR ''/'' \<notin> set ''acme''" "''docs'' \<noteq> []" "CHR ''/'' \<notin> set ''docs''"
    by simp_all
  have x: "([]::string) = [] \<or> ([]::string) = ''.git''" by simp
  have n: "([]::string) = [] \<longrightarrow> (\<forall>stem. stem \<noteq> [] \<longrightarrow> ''docs'' \<noteq> stem @ ''.git'')"
  proof (intro impI allI notI)
    fix stem :: string
    assume "stem \<noteq> []" and e: "''docs'' = stem @ ''.git''"
    from e have "length ''docs'' = length (stem @ ''.git'')" by (rule arg_cong)
    then have "stem = []" by simp
    with \<open>stem \<noteq> []\<close> show False by simp
  qed
  have g: "gitUrl acme_config = Some (''https://github.com/'' @ ''acme'' @ ''/'' @ ''docs'' @ [])"
    by (simp add: acme_config_def)
  have rf: "ref_or_main acme_config = ''main''"
    by (simp add: ref_or_main_def acme_config_def)
  have h: "http_get archive_world
             (''https://github.com/'' @ ''acme'' @ ''/'' @ ''docs'' @ ''/archive/'' @ ref_or_main acme_config @ ''.tar.gz'')
       = Inr (map (\<lambda>e. (''docs-main'' # fst e, snd e))
                [([''README.md''], ''# docs''), ([''guide'', ''install.md''], ''npm install'')])"
    by (simp add: rf archive_world_def)
  have e: "extract_err archive_world = None" by (simp add: archive_world_def quiet_world_def)
  have d: "dir (initial_state\<lparr>dir := Some []\<rparr>) = Some []" by simp
  have f: "fold write_entry
             (filter (\<lambda>e. fst e \<noteq> [])
                [([''README.md''], ''# docs''), ([''guide'', ''install.md''], ''npm install'')]) []
        = [([''README.md''], File ''# docs''), ([''guide''], Dir),
           ([''guide'', ''install.md''], File ''npm install'')]"
    by (simp add: write_entry_def)
  from archive_url_and_strip_of_one_component [OF o x n g h e d]
  show ?thesis using g h rf f by simp
qed

section \<open>The static copy\<close>

text \<open>
  Creating directories leaves every file as it is, so after the loop the files of the data
  directory are the files that glob returned, each with the bytes of its source, and the
  files that were there before and were not overwritten.
\<close>

lemma ensure_dirs_files:
  "ensure_dirs ds t = Some t' \<Longrightarrow> (map_of t' p = Some (File b)) = (map_of t p = Some (File b))"
proof (induction ds arbitrary: t)
  case Nil
  then show ?case by simp
next
  case (Cons d ds)
  show ?case
  proof (cases "map_of t d")
    case None
    with Cons.prems have "ensure_dirs ds (t @ [(d, Dir)]) = Some t'" by simp
    from Cons.IH [OF this] show ?thesis
      by (auto simp add: map_add_def split: option.splits if_splits)
  next
    case (Some n)
    with Cons.prems have "n = Dir" and "ensure_dirs ds t = Some t'"
      by (cases n; simp)+
    from Cons.IH [OF this(2)] show ?thesis .
  qed
qed

lemma copy_files_files:
  assumes "copy_files w fs s = (None, s')" and "dir s = Some t"
  shows "\<exists>t' src. dir s' = Some t' \<and> (fs \<noteq> [] \<longrightarrow> source w = Some src)
           \<and> (\<forall>p b. (map_of t' p = Some (File b))
                     = (if p \<in> set fs then map_of src p = Some b else map_of t p = Some (File b)))"
  using assms
proof (induction fs arbitrary: s t)
  case Nil
  then show ?case by auto
next
  case (Cons f fs)
  let ?s1 = "emit (EnsureDir (butlast f)) s"
  from Cons.prems obtain t1 where
    e: "ensure_dirs (tl (prefixes (butlast f))) t = Some t1"
    by (auto simp add: fs_ensureDir_def dir_tree_def Let_def split: option.splits sum.splits)
  let ?s2 = "emit (CopyFile f) (?s1\<lparr>dir := Some t1\<rparr>)"
  from Cons.prems e obtain src b0 where
    src: "source w = Some src" and b0: "map_of src f = Some b0" and nd: "map_of t1 f \<noteq> Some Dir"
    and rest: "copy_files w fs (?s2\<lparr>dir := Some (AList.update f (File b0) t1)\<rparr>) = (None, s')"
    by (auto simp add: fs_ensureDir_def fs_copy_def dir_tree_def Let_def
        split: option.splits sum.splits node.splits)
  have d2: "dir (?s2\<lparr>dir := Some (AList.update f (File b0) t1)\<rparr>) = Some (AList.update f (File b0) t1)"
    by simp
  from Cons.IH [OF rest d2] obtain t' src' where
    t': "dir s' = Some t'" and s': "fs \<noteq> [] \<longrightarrow> source w = Some src'"
    and m: "\<forall>p b. (map_of t' p = Some (File b))
                 = (if p \<in> set fs then map_of src' p = Some b
                    else map_of (AList.update f (File b0) t1) p = Some (File b))"
    by blast
  have same: "fs \<noteq> [] \<longrightarrow> src' = src" using s' src by auto
  have "\<forall>p b. (map_of t' p = Some (File b))
              = (if p \<in> set (f # fs) then map_of src p = Some b else map_of t p = Some (File b))"
  proof (intro allI)
    fix p b
    show "(map_of t' p = Some (File b))
              = (if p \<in> set (f # fs) then map_of src p = Some b else map_of t p = Some (File b))"
    proof (cases "p \<in> set fs")
      case True
      then have "fs \<noteq> []" by auto
      with same m True show ?thesis by simp
    next
      case False
      show ?thesis
      proof (cases "p = f")
        case True
        with False m b0 show ?thesis by (simp add: update_conv')
      next
        case neq: False
        with False m ensure_dirs_files [OF e, of p b] show ?thesis by (simp add: update_conv')
      qed
    qed
  qed
  with t' src show ?case by blast
qed


lemma copyIncludedDir_files:
  assumes "fst (copyIncludedDir c w s) = Return ()" and "dir s = Some []"
  shows "\<exists>fs t'. glob_result w = Inr fs \<and> dir (snd (copyIncludedDir c w s)) = Some t'
           \<and> (\<forall>p b. (map_of t' p = Some (File b))
                     = (p \<in> set fs \<and> (\<exists>src. source w = Some src \<and> map_of src p = Some b)))"
proof -
  let ?s1 = "emit (Glob (includeDir c) (ignorePatterns c)) s"
  from assms(1) obtain fs where g: "glob_result w = Inr fs"
    by (cases "glob_result w") (auto simp add: copyIncludedDir_def Let_def)
  obtain r s2 where c: "copy_files w fs ?s1 = (r, s2)" by (cases "copy_files w fs ?s1")
  with assms(1) g have r: "r = None" and s2: "snd (copyIncludedDir c w s) = s2"
    by (auto simp add: copyIncludedDir_def Let_def split: option.splits)
  have d: "dir ?s1 = Some []" using assms(2) by simp
  from copy_files_files [OF c [unfolded r] d] obtain t' src where
    t': "dir s2 = Some t'" and sr: "fs \<noteq> [] \<longrightarrow> source w = Some src"
    and m: "\<forall>p b. (map_of t' p = Some (File b))
                 = (if p \<in> set fs then map_of src p = Some b else map_of [] p = Some (File b))"
    by blast
  have "\<forall>p b. (map_of t' p = Some (File b))
             = (p \<in> set fs \<and> (\<exists>src. source w = Some src \<and> map_of src p = Some b))"
  proof (intro allI)
    fix p b
    show "(map_of t' p = Some (File b))
             = (p \<in> set fs \<and> (\<exists>src. source w = Some src \<and> map_of src p = Some b))"
    proof (cases "p \<in> set fs")
      case True
      then have "source w = Some src" using sr by auto
      with True m show ?thesis by simp
    next
      case False
      with m show ?thesis by simp
    qed
  qed
  with g t' s2 show ?thesis by blast
qed

text \<open>
  After a build from a static directory the data directory holds, as files, exactly the
  paths that glob returned, with the bytes of the source.  The build script filters
  nothing itself.
\<close>

lemma static_build_reaches_copy:
  assumes "\<not> truthy (gitUrl c)" and "truthy (includeDir c)" and "fst (build c w s) = Return ()"
  shows "\<exists>s3. dir s3 = Some [] \<and> fst (copyIncludedDir c w s3) = Return ()
           \<and> dir (snd (build c w s)) = dir (snd (copyIncludedDir c w s3))"
proof -
  obtain x1 s1 where a: "createDefaultConfig w s = (x1, s1)" by (cases "createDefaultConfig w s")
  let ?s3 = "(emit EmptyDir ((emit (EnsureDir []) s1)\<lparr>dir := Some (dir_tree (dir s1))\<rparr>))\<lparr>dir := Some []\<rparr>"
  obtain x2 s4 where b: "copyIncludedDir c w ?s3 = (x2, s4)" by (cases "copyIncludedDir c w ?s3")
  from assms a b have "x2 = Return () \<and> dir (snd (build c w s)) = dir s4"
    by (auto simp add: build_def build_steps_def prepareDataDir_def fs_ensureDataDir_def
        fs_emptyDir_def Let_def split: completion.splits option.splits prod.splits if_splits)
  with b show ?thesis by (intro exI [of _ ?s3]) simp
qed

lemma static_build_copies_what_glob_returns:
  assumes "\<not> truthy (gitUrl c)" and "truthy (includeDir c)" and "fst (build c w s) = Return ()"
  shows "\<exists>fs t'. glob_result w = Inr fs \<and> dir (snd (build c w s)) = Some t'
           \<and> (\<forall>p b. (map_of t' p = Some (File b))
                     = (p \<in> set fs \<and> (\<exists>src. source w = Some src \<and> map_of src p = Some b)))"
proof -
  from static_build_reaches_copy [OF assms] obtain s3 where
    "dir s3 = Some []" and "fst (copyIncludedDir c w s3) = Return ()"
    and d: "dir (snd (build c w s)) = dir (snd (copyIncludedDir c w s3))"
    by blast
  from copyIncludedDir_files [OF this(2,1)] d show ?thesis by simp
qed

text \<open>
  Claim C4, for a file that a \<^verbatim>\<open>.gitignore\<close> file of the source directory excludes.  The
  enumeration passes \<^verbatim>\<open>gitignore: true\<close> to the glob package, which has no such option
  and returns the file; the loop then copies it, so the excluded file appears in the data
  directory.
\<close>

theorem gitignored_file_is_copied:
  "source gitignore_world
     = Some [([''.gitignore''], ''secret.txt''), ([''a.md''], ''# A''), ([''secret.txt''], ''token'')]
   \<and> glob_result gitignore_world = Inr [[''.gitignore''], [''a.md''], [''secret.txt'']]
   \<and> fst (build static_config gitignore_world initial_state) = Return ()
   \<and> dir (snd (build static_config gitignore_world initial_state))
       = Some [([''.gitignore''], File ''secret.txt''), ([''a.md''], File ''# A''),
               ([''secret.txt''], File ''token'')]"
  by (simp add: build_def build_steps_def createDefaultConfig_def prepareDataDir_def
      fs_ensureDataDir_def fs_emptyDir_def copyIncludedDir_def fs_ensureDir_def fs_copy_def
      dir_tree_def Let_def gitignore_world_def quiet_world_def static_config_def initial_state_def)

text \<open>
  Claim C8 says that the static copy fails whenever the source directory does not exist.
  The script never looks at the source directory itself: when the enumeration resolves to
  no file, as glob does for a directory it cannot read, the build completes.
\<close>

theorem missing_source_directory_builds_without_error:
  "source missing_source_world = None
   \<and> fst (build static_config missing_source_world initial_state) = Return ()
   \<and> dir (snd (build static_config missing_source_world initial_state)) = Some []"
  by (simp add: build_def build_steps_def createDefaultConfig_def prepareDataDir_def
      fs_ensureDataDir_def fs_emptyDir_def copyIncludedDir_def
      dir_tree_def Let_def missing_source_world_def quiet_world_def static_config_def initial_state_def)

text \<open>
  A refusal of the file system at any enumerated file stops the loop with the thrown value;
  on the freshly emptied directory the creation of directories itself cannot fail.
\<close>

lemma ensure_dirs_no_files:
  "list_all (\<lambda>e. snd e = Dir) t \<Longrightarrow>
     \<exists>t'. ensure_dirs ds t = Some t' \<and> list_all (\<lambda>e. snd e = Dir) t'"
proof (induction ds arbitrary: t)
  case Nil
  then show ?case by simp
next
  case (Cons d ds)
  show ?case
  proof (cases "map_of t d")
    case None
    have "list_all (\<lambda>e. snd e = Dir) (t @ [(d, Dir)])" using Cons.prems by simp
    from Cons.IH [OF this] None show ?thesis by simp
  next
    case (Some n)
    then have "(d, n) \<in> set t" by (rule map_of_SomeD)
    with Cons.prems have "n = Dir" by (auto simp add: list_all_iff)
    with Some Cons.IH [OF Cons.prems] show ?thesis by simp
  qed
qed

lemma fs_ensureDir_empty:
  "mkdir_err w d = None \<Longrightarrow> \<exists>t. fs_ensureDir w d (Some []) = Inr (Some t)"
  using ensure_dirs_no_files [of "[]" "tl (prefixes d)"]
  by (auto simp add: fs_ensureDir_def dir_tree_def)

lemma copy_files_refusal:
  assumes "f \<in> set fs"
    and "mkdir_err w (butlast f) \<noteq> None \<or> copy_err w f \<noteq> None \<or> source w = None
         \<or> (\<exists>src. source w = Some src \<and> map_of src f = None)"
  shows "fst (copy_files w fs s) \<noteq> None"
  using assms(1)
proof (induction fs arbitrary: s)
  case Nil
  then show ?case by simp
next
  case (Cons g fs)
  show ?case
  proof (cases "fs_ensureDir w (butlast g) (dir s)")
    case (Inl e)
    then show ?thesis by (simp add: Let_def)
  next
    case (Inr d1)
    note en = Inr
    show ?thesis
    proof (cases "fs_copy w g d1")
      case (Inl e)
      with en show ?thesis by (simp add: Let_def)
    next
      case (Inr d2)
      have "g \<noteq> f"
      proof
        assume "g = f"
        with en Inr assms(2) show False
          by (auto simp add: fs_ensureDir_def fs_copy_def split: option.splits)
      qed
      with Cons.prems have "f \<in> set fs" by simp
      from Cons.IH [OF this] en Inr show ?thesis by (simp add: Let_def)
    qed
  qed
qed

lemma copyIncludedDir_refusal:
  assumes "glob_result w = Inr fs" and "f \<in> set fs"
    and "mkdir_err w (butlast f) \<noteq> None \<or> copy_err w f \<noteq> None \<or> source w = None
         \<or> (\<exists>src. source w = Some src \<and> map_of src f = None)"
  shows "\<exists>e. fst (copyIncludedDir c w s) = Throw e"
proof -
  let ?s1 = "emit (Glob (includeDir c) (ignorePatterns c)) s"
  obtain r s2 where c: "copy_files w fs ?s1 = (r, s2)" by (cases "copy_files w fs ?s1")
  with copy_files_refusal [OF assms(2,3), of ?s1] obtain e where "r = Some e" by auto
  with c assms(1) show ?thesis by (simp add: copyIncludedDir_def Let_def)
qed

lemma static_build_exits_when_copy_throws:
  assumes "\<not> truthy (gitUrl c)" and "truthy (includeDir c)"
    and "\<And>s'. \<exists>e. fst (copyIncludedDir c w s') = Throw e"
  shows "fst (build c w s) = Exit 1"
proof -
  obtain x1 s1 where a: "createDefaultConfig w s = (x1, s1)" by (cases "createDefaultConfig w s")
  let ?s3 = "(emit EmptyDir ((emit (EnsureDir []) s1)\<lparr>dir := Some (dir_tree (dir s1))\<rparr>))\<lparr>dir := Some []\<rparr>"
  obtain x2 s4 where b: "copyIncludedDir c w ?s3 = (x2, s4)" by (cases "copyIncludedDir c w ?s3")
  from assms(3) [of ?s3] b obtain e where "x2 = Throw e" by auto
  with assms(1,2) a b show ?thesis
    by (auto simp add: build_def build_steps_def prepareDataDir_def fs_ensureDataDir_def
        fs_emptyDir_def createDefaultConfig_def Let_def
        split: completion.splits option.splits prod.splits if_splits)
qed


lemma copyIncludedDir_first_mkdir_refused:
  assumes "glob_result w = Inr (f # fs)" and "mkdir_err w (butlast f) = Some e"
  shows "copyIncludedDir c w s
       = (Throw e, emit (Log (ErrorCopying e))
                     (emit (EnsureDir (butlast f)) (emit (Glob (includeDir c) (ignorePatterns c)) s)))"
  using assms by (simp add: copyIncludedDir_def fs_ensureDir_def Let_def)

lemma copyIncludedDir_first_copy_refused:
  assumes "glob_result w = Inr (f # fs)" and "mkdir_err w (butlast f) = None"
    and "copy_err w f = Some e" and "dir s = Some []"
  shows "\<exists>t. copyIncludedDir c w s
       = (Throw e, emit (Log (ErrorCopying e))
                     (emit (CopyFile f)
                        ((emit (EnsureDir (butlast f)) (emit (Glob (includeDir c) (ignorePatterns c)) s))
                           \<lparr>dir := Some t\<rparr>)))"
proof -
  from fs_ensureDir_empty [OF assms(2)] obtain t where
    "fs_ensureDir w (butlast f) (Some []) = Inr (Some t)" by blast
  with assms show ?thesis
    by (intro exI [of _ t]) (simp add: copyIncludedDir_def fs_copy_def Let_def)
qed

lemma static_build_first_step_refused:
  assumes "\<not> truthy (gitUrl c)" and "truthy (includeDir c)"
    and "config_exists w \<or> writeFile_err w = None"
    and "ensureDir_err w = None" and "emptyDir_err w = None"
    and "glob_result w = Inr (f # fs)"
    and "mkdir_err w (butlast f) = Some e \<or> (mkdir_err w (butlast f) = None \<and> copy_err w f = Some e)"
  shows "fst (build c w s) = Exit 1
       \<and> last (new_actions s (snd (build c w s))) = Log (BuildFailed e)
       \<and> Chmod \<notin> set (new_actions s (snd (build c w s)))"
proof -
  have "\<exists>s1 es. createDefaultConfig w s = (Return (), s1) \<and> trace s1 = trace s @ es
            \<and> Chmod \<notin> fst ` set es"
  proof (cases "config_exists w")
    case True
    then show ?thesis
      by (intro exI [of _ "emit ExistsDefaultConfig s"] exI [of _ "[(ExistsDefaultConfig, dir s)]"])
         (simp add: createDefaultConfig_def Let_def)
  next
    case False
    with assms(3) have "writeFile_err w = None" by simp
    with False show ?thesis
      by (intro exI [of _ "emit WriteDefaultConfig (emit ExistsDefaultConfig s)"]
            exI [of _ "[(ExistsDefaultConfig, dir s), (WriteDefaultConfig, dir s)]"])
         (simp add: createDefaultConfig_def Let_def)
  qed
  then obtain s1 es where a: "createDefaultConfig w s = (Return (), s1)"
    and es: "trace s1 = trace s @ es" "Chmod \<notin> fst ` set es" by blast
  let ?s3 = "(emit EmptyDir ((emit (EnsureDir []) s1)\<lparr>dir := Some (dir_tree (dir s1))\<rparr>))\<lparr>dir := Some []\<rparr>"
  have p: "prepareDataDir c w s1 = copyIncludedDir c w ?s3"
    using assms(1,2,4,5)
    by (simp add: prepareDataDir_def fs_ensureDataDir_def fs_emptyDir_def Let_def)
  have d3: "dir ?s3 = Some []" by simp
  from assms(7) show ?thesis
  proof
    assume m: "mkdir_err w (butlast f) = Some e"
    show ?thesis
      using a p es copyIncludedDir_first_mkdir_refused [OF assms(6) m, of c ?s3]
      by (simp add: build_def build_steps_def new_actions_def image_iff)
  next
    assume m: "mkdir_err w (butlast f) = None \<and> copy_err w f = Some e"
    from m have m1: "mkdir_err w (butlast f) = None" and m2: "copy_err w f = Some e" by simp_all
    from copyIncludedDir_first_copy_refused [OF assms(6) m1 m2 d3, of c] obtain t where
      "copyIncludedDir c w ?s3
       = (Throw e, emit (Log (ErrorCopying e))
                     (emit (CopyFile f)
                        ((emit (EnsureDir (butlast f)) (emit (Glob (includeDir c) (ignorePatterns c)) ?s3))
                           \<lparr>dir := Some t\<rparr>)))"
      by blast
    then show ?thesis
      using a p es by (simp add: build_def build_steps_def new_actions_def image_iff)
  qed
qed

text \<open>
  Claim C8, amended.  The static copy fails, and the build exits with code 1, whenever the
  enumeration throws or a step of the copy throws: the file system refusing to create a
  directory or to copy a file, or an enumerated file whose source is missing, for any of
  the enumerated files.  The thrown value is the one that reaches the \<^verbatim>\<open>catch\<close> of
  \<^verbatim>\<open>build\<close>, the loop stops at the failing step, and nothing after the copy runs.  An
  enumeration without files completes without error and leaves the data directory empty.
\<close>

theorem static_copy_fails_when_a_call_throws:
  assumes "\<not> truthy (gitUrl c)" and "truthy (includeDir c)"
  shows "(glob_result w = Inl e \<longrightarrow> fst (copyIncludedDir c w s) = Throw e \<and> fst (build c w s) = Exit 1)
       \<and> (glob_result w = Inr gs \<and> g \<in> set gs
            \<and> (mkdir_err w (butlast g) \<noteq> None \<or> copy_err w g \<noteq> None \<or> source w = None
                \<or> (\<exists>src. source w = Some src \<and> map_of src g = None))
          \<longrightarrow> (\<exists>x. fst (copyIncludedDir c w s) = Throw x) \<and> fst (build c w s) = Exit 1)
       \<and> (glob_result w = Inr (f # fs) \<and> mkdir_err w (butlast f) = Some e
          \<longrightarrow> fst (copyIncludedDir c w s) = Throw e
              \<and> new_actions s (snd (copyIncludedDir c w s))
                  = [Glob (includeDir c) (ignorePatterns c), EnsureDir (butlast f), Log (ErrorCopying e)])
       \<and> (glob_result w = Inr (f # fs) \<and> mkdir_err w (butlast f) = None \<and> copy_err w f = Some e
            \<and> dir s = Some []
          \<longrightarrow> fst (copyIncludedDir c w s) = Throw e
              \<and> new_actions s (snd (copyIncludedDir c w s))
                  = [Glob (includeDir c) (ignorePatterns c), EnsureDir (butlast f), CopyFile f,
                     Log (ErrorCopying e)])
       \<and> ((config_exists w \<or> writeFile_err w = None) \<and> ensureDir_err w = None \<and> emptyDir_err w = None
            \<and> glob_result w = Inr (f # fs)
            \<and> (mkdir_err w (butlast f) = Some e \<or> (mkdir_err w (butlast f) = None \<and> copy_err w f = Some e))
          \<longrightarrow> fst (build c w s) = Exit 1
              \<and> last (new_actions s (snd (build c w s))) = Log (BuildFailed e)
              \<and> Chmod \<notin> set (new_actions s (snd (build c w s))))
       \<and> (fst (copyIncludedDir c w s) = Throw e)
           = (glob_result w = Inl e
              \<or> (\<exists>fs. glob_result w = Inr fs
                    \<and> fst (copy_files w fs (emit (Glob (includeDir c) (ignorePatterns c)) s)) = Some e))
       \<and> (glob_result w = Inr [] \<and> (config_exists w \<or> writeFile_err w = None)
            \<and> ensureDir_err w = None \<and> emptyDir_err w = None \<and> chmod_err w = None
          \<longrightarrow> fst (build c w s) = Return () \<and> dir (snd (build c w s)) = Some [])"
proof -
  have 1: "glob_result w = Inl e \<longrightarrow> fst (copyIncludedDir c w s) = Throw e \<and> fst (build c w s) = Exit 1"
    using assms
    by (simp add: build_def build_steps_def createDefaultConfig_def prepareDataDir_def
        fs_ensureDataDir_def fs_emptyDir_def copyIncludedDir_def Let_def split: option.split)
  have 2: "(\<exists>x. fst (copyIncludedDir c w s) = Throw x) \<and> fst (build c w s) = Exit 1"
    if "glob_result w = Inr gs" and "g \<in> set gs"
      and "mkdir_err w (butlast g) \<noteq> None \<or> copy_err w g \<noteq> None \<or> source w = None
                \<or> (\<exists>src. source w = Some src \<and> map_of src g = None)"
    using copyIncludedDir_refusal [OF that, of c]
      static_build_exits_when_copy_throws [OF assms, of w s] by blast
  have 3: "fst (copyIncludedDir c w s) = Throw e
              \<and> new_actions s (snd (copyIncludedDir c w s))
                  = [Glob (includeDir c) (ignorePatterns c), EnsureDir (butlast f), Log (ErrorCopying e)]"
    if "glob_result w = Inr (f # fs)" and "mkdir_err w (butlast f) = Some e"
    using copyIncludedDir_first_mkdir_refused [OF that, of c s] by simp
  have 4: "fst (copyIncludedDir c w s) = Throw e
              \<and> new_actions s (snd (copyIncludedDir c w s))
                  = [Glob (includeDir c) (ignorePatterns c), EnsureDir (butlast f), CopyFile f,
                     Log (ErrorCopying e)]"
    if "glob_result w = Inr (f # fs)" and "mkdir_err w (butlast f) = None" and "copy_err w f = Some e"
      and "dir s = Some []"
    using copyIncludedDir_first_copy_refused [OF that, of c] by auto
  have 5: "fst (build c w s) = Exit 1
              \<and> last (new_actions s (snd (build c w s))) = Log (BuildFailed e)
              \<and> Chmod \<notin> set (new_actions s (snd (build c w s)))"
    if "config_exists w \<or> writeFile_err w = None" and "ensureDir_err w = None"
      and "emptyDir_err w = None" and "glob_result w = Inr (f # fs)"
      and "mkdir_err w (butlast f) = Some e \<or> (mkdir_err w (butlast f) = None \<and> copy_err w f = Some e)"
    using static_build_first_step_refused [OF assms that] .
  have 6: "(fst (copyIncludedDir c w s) = Throw e)
           = (glob_result w = Inl e
              \<or> (\<exists>fs. glob_result w = Inr fs
                    \<and> fst (copy_files w fs (emit (Glob (includeDir c) (ignorePatterns c)) s)) = Some e))"
    by (auto simp add: copyIncludedDir_def Let_def split: sum.splits prod.splits option.splits)
  have 7: "glob_result w = Inr [] \<and> (config_exists w \<or> writeFile_err w = None)
            \<and> ensureDir_err w = None \<and> emptyDir_err w = None \<and> chmod_err w = None
          \<longrightarrow> fst (build c w s) = Return () \<and> dir (snd (build c w s)) = Some []"
    using assms
    by (auto simp add: build_def build_steps_def createDefaultConfig_def prepareDataDir_def
        fs_ensureDataDir_def fs_emptyDir_def copyIncludedDir_def Let_def)
  from 1 2 3 4 5 6 7 show ?thesis by blast
qed


theorem static_copy_fails_when_a_call_throws_witness:
  "\<not> truthy (gitUrl static_config) \<and> truthy (includeDir static_config)
   \<and> glob_result (quiet_world\<lparr>glob_result := Inl (ErrorObj ''Error'' ''EMFILE'')\<rparr>)
       = Inl (ErrorObj ''Error'' ''EMFILE'')
   \<and> fst (build static_config (quiet_world\<lparr>glob_result := Inl (ErrorObj ''Error'' ''EMFILE'')\<rparr>) initial_state)
       = Exit 1
   \<and> glob_result mkdir_refused_world = Inr [[''a.md''], [''guide'', ''b.md'']]
   \<and> mkdir_err mkdir_refused_world (butlast [''guide'', ''b.md'']) = Some (ErrorObj ''Error'' ''EACCES'')
   \<and> fst (build static_config mkdir_refused_world initial_state) = Exit 1
   \<and> glob_result copy_refused_world = Inr [[''a.md''], [''guide'', ''b.md'']]
   \<and> mkdir_err copy_refused_world (butlast [''a.md'']) = None
   \<and> copy_err copy_refused_world [''a.md''] = Some (ErrorObj ''Error'' ''EACCES'')
   \<and> fst (build static_config copy_refused_world initial_state) = Exit 1
   \<and> last (new_actions initial_state (snd (build static_config copy_refused_world initial_state)))
       = Log (BuildFailed (ErrorObj ''Error'' ''EACCES''))
   \<and> Chmod \<notin> set (new_actions initial_state (snd (build static_config copy_refused_world initial_state)))
   \<and> glob_result quiet_world = Inr []
   \<and> fst (build static_config quiet_world initial_state) = Return ()"
proof -
  have h1: "\<not> truthy (gitUrl static_config)" by (simp add: static_config_def)
  have h2: "truthy (includeDir static_config)" by (simp add: static_config_def)
  have g: "glob_result (quiet_world\<lparr>glob_result := Inl (ErrorObj ''Error'' ''EMFILE'')\<rparr>)
       = Inl (ErrorObj ''Error'' ''EMFILE'')" by simp
  have q: "glob_result quiet_world = Inr [] \<and> config_exists quiet_world
       \<and> ensureDir_err quiet_world = None \<and> emptyDir_err quiet_world = None
       \<and> chmod_err quiet_world = None"
    by (simp add: quiet_world_def)
  have m: "glob_result mkdir_refused_world = Inr [[''a.md''], [''guide'', ''b.md'']]
       \<and> [''guide'', ''b.md''] \<in> set [[''a.md''], [''guide'', ''b.md'']]
       \<and> mkdir_err mkdir_refused_world (butlast [''guide'', ''b.md'']) = Some (ErrorObj ''Error'' ''EACCES'')"
    by (simp add: mkdir_refused_world_def)
  have k: "glob_result copy_refused_world = Inr [[''a.md''], [''guide'', ''b.md'']]
       \<and> mkdir_err copy_refused_world (butlast [''a.md'']) = None
       \<and> copy_err copy_refused_world [''a.md''] = Some (ErrorObj ''Error'' ''EACCES'')
       \<and> config_exists copy_refused_world \<and> ensureDir_err copy_refused_world = None
       \<and> emptyDir_err copy_refused_world = None"
    by (simp add: copy_refused_world_def quiet_world_def)
  from static_copy_fails_when_a_call_throws
         [OF h1 h2, where w = "quiet_world\<lparr>glob_result := Inl (ErrorObj ''Error'' ''EMFILE'')\<rparr>"
            and e = "ErrorObj ''Error'' ''EMFILE''" and s = initial_state]
  have a: "fst (build static_config (quiet_world\<lparr>glob_result := Inl (ErrorObj ''Error'' ''EMFILE'')\<rparr>)
                  initial_state) = Exit 1"
    using g by blast
  from static_copy_fails_when_a_call_throws
         [OF h1 h2, where w = mkdir_refused_world and s = initial_state
            and gs = "[[''a.md''], [''guide'', ''b.md'']]" and g = "[''guide'', ''b.md'']"]
  have b: "fst (build static_config mkdir_refused_world initial_state) = Exit 1"
    using m by blast
  from static_copy_fails_when_a_call_throws
         [OF h1 h2, where w = copy_refused_world and s = initial_state
            and f = "[''a.md'']" and fs = "[[''guide'', ''b.md'']]" and e = "ErrorObj ''Error'' ''EACCES''"]
  have c: "fst (build static_config copy_refused_world initial_state) = Exit 1
       \<and> last (new_actions initial_state (snd (build static_config copy_refused_world initial_state)))
           = Log (BuildFailed (ErrorObj ''Error'' ''EACCES''))
       \<and> Chmod \<notin> set (new_actions initial_state (snd (build static_config copy_refused_world initial_state)))"
    using k by blast
  from static_copy_fails_when_a_call_throws
         [OF h1 h2, where w = quiet_world and s = initial_state]
  have d: "fst (build static_config quiet_world initial_state) = Return ()"
    using q by blast
  from h1 h2 g a m b k c q d show ?thesis by blast
qed

section \<open>The reset of the data directory\<close>

lemma first_ok_simps [simp]:
  "first_ok [] = True"
  "first_ok ((a, d) # es) = (if is_write a then is_empty_dir d else first_ok es)"
  by (simp_all add: first_ok_def)

lemma first_ok_append:
  "first_ok (es @ fs) = (if list_ex (\<lambda>e. is_write (fst e)) es then first_ok es else first_ok fs)"
  by (induction es) (auto simp add: first_ok_def)

lemma is_write_simps [simp]:
  "is_write (GitClone u d r)" "is_write (TarExtract n)" "is_write (CopyFile f)"
  "is_write (EnsureDir p) = (p \<noteq> [])" "\<not> is_write EmptyDir" "\<not> is_write ReadDir"
  "\<not> is_write (Log m)" "\<not> is_write (HttpGet url)" "\<not> is_write (Glob i ps)" "\<not> is_write CheckIsRepo"
  "\<not> is_write GitFetch" "\<not> is_write GitStatus" "\<not> is_write (GitPull o' r)" "\<not> is_write (SetTimeout n')"
  "\<not> is_write ClearTimeout" "\<not> is_write Connect" "\<not> is_write (Search so)"
  "\<not> is_write ExistsDefaultConfig" "\<not> is_write WriteDefaultConfig" "\<not> is_write Chmod"
  by (simp_all add: is_write_def)

lemma is_empty_dir_simps [simp]:
  "is_empty_dir None = False"
  "is_empty_dir (Some t) = (readdir_items t = [])"
  by (simp_all add: is_empty_dir_def)

lemma copy_files_trace: "\<exists>es. trace (snd (copy_files w fs s)) = trace s @ es"
proof (induction fs arbitrary: s)
  case Nil
  then show ?case by simp
next
  case (Cons f fs)
  show ?case
  proof (cases "fs_ensureDir w (butlast f) (dir s)")
    case (Inl e)
    then show ?thesis by (simp add: Let_def)
  next
    case (Inr d1)
    show ?thesis
    proof (cases "fs_copy w f d1")
      case (Inl e)
      with Inr show ?thesis by (simp add: Let_def)
    next
      case (Inr d2)
      from Cons.IH [of "(emit (CopyFile f) ((emit (EnsureDir (butlast f)) s)\<lparr>dir := d1\<rparr>))\<lparr>dir := d2\<rparr>"]
      show ?thesis using Inr \<open>fs_ensureDir w (butlast f) (dir s) = Inr d1\<close>
        by (auto simp add: Let_def)
    qed
  qed
qed

lemma copy_files_first_write:
  assumes "is_empty_dir (dir s)"
  shows "\<exists>es. trace (snd (copy_files w fs s)) = trace s @ es \<and> first_ok es"
proof (cases fs)
  case Nil
  then show ?thesis by simp
next
  case (Cons f fs')
  show ?thesis
  proof (cases "fs_ensureDir w (butlast f) (dir s)")
    case (Inl e)
    with Cons assms show ?thesis by (simp add: Let_def)
  next
    case (Inr d1)
    have d1: "butlast f = [] \<longrightarrow> is_empty_dir d1"
      using Inr assms
      by (auto simp add: fs_ensureDir_def is_empty_dir_def dir_tree_def split: option.splits)
    show ?thesis
    proof (cases "fs_copy w f d1")
      case (Inl e)
      with Inr Cons assms d1 show ?thesis by (simp add: Let_def)
    next
      case (Inr d2)
      let ?s' = "(emit (CopyFile f) ((emit (EnsureDir (butlast f)) s)\<lparr>dir := d1\<rparr>))\<lparr>dir := d2\<rparr>"
      from copy_files_trace [of w fs' ?s'] obtain es where
        "trace (snd (copy_files w fs' ?s')) = trace ?s' @ es" by blast
      then show ?thesis
        using Inr \<open>fs_ensureDir w (butlast f) (dir s) = Inr d1\<close> Cons assms d1
        by (simp add: Let_def)
    qed
  qed
qed

lemma cloneGitRepo_first_write:
  "is_empty_dir (dir s) \<Longrightarrow> \<exists>es. trace (snd (cloneGitRepo c w s)) = trace s @ es \<and> first_ok es"
  by (simp add: cloneGitRepo_def Let_def split: sum.split)

lemma downloadAndExtractTarball_first_write:
  "is_empty_dir (dir s) \<Longrightarrow> \<exists>es. trace (snd (downloadAndExtractTarball c w s)) = trace s @ es \<and> first_ok es"
  by (auto simp add: downloadAndExtractTarball_def download_extract_def cloneGitRepo_def tar_x_def Let_def
      split: sum.split option.split prod.split completion.split stream_failure.split)

lemma copyIncludedDir_first_write:
  assumes "is_empty_dir (dir s)"
  shows "\<exists>es. trace (snd (copyIncludedDir c w s)) = trace s @ es \<and> first_ok es"
proof (cases "glob_result w")
  case (Inl e)
  then show ?thesis by (simp add: copyIncludedDir_def Let_def)
next
  case (Inr fs)
  let ?s1 = "emit (Glob (includeDir c) (ignorePatterns c)) s"
  have "is_empty_dir (dir ?s1)" using assms by simp
  from copy_files_first_write [OF this, of w fs] obtain es where
    es: "trace (snd (copy_files w fs ?s1)) = trace ?s1 @ es" "first_ok es" by blast
  obtain r s2 where c: "copy_files w fs ?s1 = (r, s2)" by (cases "copy_files w fs ?s1")
  show ?thesis
    using Inr es c by (cases r) (auto simp add: copyIncludedDir_def Let_def first_ok_append)
qed

lemma prepareDataDir_first_write:
  "\<exists>es. trace (snd (prepareDataDir c w s)) = trace s @ es \<and> first_ok es"
proof (cases "ensureDir_err w = None \<and> emptyDir_err w = None")
  case False
  then show ?thesis
    by (auto simp add: prepareDataDir_def fs_ensureDataDir_def fs_emptyDir_def Let_def split: option.split)
next
  case True
  let ?s3 = "(emit EmptyDir ((emit (EnsureDir []) s)\<lparr>dir := Some (dir_tree (dir s))\<rparr>))\<lparr>dir := Some []\<rparr>"
  have e: "is_empty_dir (dir ?s3)" by simp
  have t: "trace ?s3 = trace s @ [(EnsureDir [], dir s), (EmptyDir, Some (dir_tree (dir s)))]" by simp
  have p: "prepareDataDir c w s
       = (if truthy (gitUrl c) then
            (if 0 < autoUpdateInterval c then cloneGitRepo c w ?s3 else downloadAndExtractTarball c w ?s3)
          else if truthy (includeDir c) then copyIncludedDir c w ?s3
          else (Return (), ?s3))"
    using True by (simp add: prepareDataDir_def fs_ensureDataDir_def fs_emptyDir_def Let_def)
  from cloneGitRepo_first_write [OF e, of c w] downloadAndExtractTarball_first_write [OF e, of c w]
    copyIncludedDir_first_write [OF e, of c w]
  show ?thesis
    unfolding p t by (auto simp add: first_ok_append)
qed


lemma first_write_first_ok:
  "trace s' = trace s @ es \<Longrightarrow>
     (case first_write s s' of None \<Rightarrow> True | Some e \<Rightarrow> is_empty_dir (snd e)) = first_ok es"
  by (simp add: first_write_def first_ok_def)

lemma copy_files_dir_only:
  "dir s = dir s' \<Longrightarrow>
     fst (copy_files w fs s) = fst (copy_files w fs s')
     \<and> dir (snd (copy_files w fs s)) = dir (snd (copy_files w fs s'))"
proof (induction fs arbitrary: s s')
  case Nil
  then show ?case by simp
next
  case (Cons f fs)
  show ?case
  proof (cases "fs_ensureDir w (butlast f) (dir s)")
    case (Inl e)
    with Cons.prems show ?thesis by (simp add: Let_def)
  next
    case (Inr d1)
    show ?thesis
    proof (cases "fs_copy w f d1")
      case (Inl e)
      with Inr Cons.prems show ?thesis by (simp add: Let_def)
    next
      case (Inr d2)
      have "dir ((emit (CopyFile f) ((emit (EnsureDir (butlast f)) s)\<lparr>dir := d1\<rparr>))\<lparr>dir := d2\<rparr>)
          = dir ((emit (CopyFile f) ((emit (EnsureDir (butlast f)) s')\<lparr>dir := d1\<rparr>))\<lparr>dir := d2\<rparr>)"
        by simp
      from Cons.IH [OF this] show ?thesis
        using Inr \<open>fs_ensureDir w (butlast f) (dir s) = Inr d1\<close> Cons.prems by (simp add: Let_def)
    qed
  qed
qed

lemma copyIncludedDir_dir_only:
  assumes "dir s = dir s'"
  shows "fst (copyIncludedDir c w s) = fst (copyIncludedDir c w s')
     \<and> dir (snd (copyIncludedDir c w s)) = dir (snd (copyIncludedDir c w s'))"
proof (cases "glob_result w")
  case (Inl e)
  with assms show ?thesis by (simp add: copyIncludedDir_def Let_def)
next
  case (Inr fs)
  let ?g = "Glob (includeDir c) (ignorePatterns c)"
  have "dir (emit ?g s) = dir (emit ?g s')" using assms by simp
  from copy_files_dir_only [OF this, of w fs] show ?thesis
    using Inr
    by (cases "copy_files w fs (emit ?g s)"; cases "copy_files w fs (emit ?g s')")
       (auto simp add: copyIncludedDir_def Let_def split: option.splits)
qed

lemma cloneGitRepo_dir_only:
  "dir s = dir s' \<Longrightarrow>
     fst (cloneGitRepo c w s) = fst (cloneGitRepo c w s')
     \<and> dir (snd (cloneGitRepo c w s)) = dir (snd (cloneGitRepo c w s'))"
  by (simp add: cloneGitRepo_def Let_def split: sum.split)

lemma downloadAndExtractTarball_dir_only:
  "dir s = dir s' \<Longrightarrow>
     fst (downloadAndExtractTarball c w s) = fst (downloadAndExtractTarball c w s')
     \<and> dir (snd (downloadAndExtractTarball c w s)) = dir (snd (downloadAndExtractTarball c w s'))"
  by (auto simp add: downloadAndExtractTarball_def download_extract_def cloneGitRepo_def Let_def
      split: sum.split option.split prod.split completion.split stream_failure.split)

lemma prepareDataDir_ignores_old_contents:
  assumes "ensureDir_err w = None" and "emptyDir_err w = None"
  shows "fst (prepareDataDir c w (s\<lparr>dir := d\<rparr>)) = fst (prepareDataDir c w s)
       \<and> dir (snd (prepareDataDir c w (s\<lparr>dir := d\<rparr>))) = dir (snd (prepareDataDir c w s))"
proof -
  let ?s3 = "\<lambda>s. (emit EmptyDir ((emit (EnsureDir []) s)\<lparr>dir := Some (dir_tree (dir s))\<rparr>))\<lparr>dir := Some []\<rparr>"
  have p: "prepareDataDir c w s
       = (if truthy (gitUrl c) then
            (if 0 < autoUpdateInterval c then cloneGitRepo c w (?s3 s) else downloadAndExtractTarball c w (?s3 s))
          else if truthy (includeDir c) then copyIncludedDir c w (?s3 s)
          else (Return (), ?s3 s))" for s
    using assms by (simp add: prepareDataDir_def fs_ensureDataDir_def fs_emptyDir_def Let_def)
  have e: "dir (?s3 (s\<lparr>dir := d\<rparr>)) = dir (?s3 s)" by simp
  show ?thesis
    unfolding p
    using cloneGitRepo_dir_only [OF e, of c w] downloadAndExtractTarball_dir_only [OF e, of c w]
      copyIncludedDir_dir_only [OF e, of c w]
    by simp
qed

lemma prepareDataDir_starts_with_reset:
  "(\<exists>es. new_actions s (snd (prepareDataDir c w s)) = EnsureDir [] # es)
   \<and> (ensureDir_err w = None
        \<longrightarrow> (\<exists>es. new_actions s (snd (prepareDataDir c w s)) = EnsureDir [] # EmptyDir # es))"
proof -
  let ?s3 = "(emit EmptyDir ((emit (EnsureDir []) s)\<lparr>dir := Some (dir_tree (dir s))\<rparr>))\<lparr>dir := Some []\<rparr>"
  have t: "trace ?s3 = trace s @ [(EnsureDir [], dir s), (EmptyDir, Some (dir_tree (dir s)))]" by simp
  have e: "is_empty_dir (dir ?s3)" by simp
  from cloneGitRepo_first_write [OF e, of c w] downloadAndExtractTarball_first_write [OF e, of c w]
    copyIncludedDir_first_write [OF e, of c w]
  show ?thesis
    unfolding t
    by (auto simp add: prepareDataDir_def fs_ensureDataDir_def fs_emptyDir_def Let_def new_actions_def
        split: option.split)
qed


lemma checkForUpdates_no_write:
  "\<exists>es. trace (snd (checkForUpdates c cy s)) = trace s @ es
        \<and> (\<forall>e \<in> set es. \<not> is_write (fst e) \<and> fst e \<noteq> EmptyDir)"
  by (auto simp add: checkForUpdates_def schedule_next_def sync_body_def Let_def
      split: sum.split bool.split option.split prod.split)

lemma first_ok_no_write: "\<forall>e \<in> set es. \<not> is_write (fst e) \<Longrightarrow> first_ok es"
  by (induction es) auto

lemma initial_clone_reset:
  assumes "dir s = Some t"
  shows "\<exists>es. trace (snd (initial_clone c w s)) = trace s @ es \<and> first_ok es
           \<and> (EmptyDir \<in> fst ` set es) = (readdir_err w = None \<and> readdir_items t \<noteq> [])
           \<and> (\<forall>n. TarExtract n \<notin> fst ` set es)"
  using assms
  by (auto simp add: initial_clone_def clone_steps_def fs_readdir_def fs_emptyDir_def Let_def
      split: option.split sum.split prod.split)

lemma run_reset:
  assumes "dir s = Some t"
  shows "\<exists>es. trace (snd (run c w cy s)) = trace s @ es \<and> first_ok es
           \<and> (EmptyDir \<in> fst ` set es)
               = (truthy (gitUrl c) \<and> 0 < autoUpdateInterval c \<and> isRepo_start w = Inr False
                  \<and> readdir_err w = None \<and> readdir_items t \<noteq> [])
           \<and> (\<forall>n. TarExtract n \<notin> fst ` set es)"
proof (cases "truthy (gitUrl c) \<and> 0 < autoUpdateInterval c")
  case False
  then show ?thesis
    by (auto simp add: run_def init_content_def clear_timer_def Let_def split: option.split)
next
  case True
  let ?s1 = "emit CheckIsRepo (s\<lparr>git := True\<rparr>)"
  have t1: "trace ?s1 = trace s @ [(CheckIsRepo, dir s)]" by simp
  show ?thesis
  proof (cases "isRepo_start w")
    case (Inl e)
    with True show ?thesis by (simp add: run_def init_content_def Let_def)
  next
    case (Inr b)
    show ?thesis
    proof (cases b)
      case True
      from checkForUpdates_no_write [of c cy ?s1] obtain es where
        es: "trace (snd (checkForUpdates c cy ?s1)) = trace s @ (CheckIsRepo, dir s) # es"
        and nw: "\<forall>e \<in> set es. \<not> is_write (fst e) \<and> fst e \<noteq> EmptyDir"
        by auto
      have f: "first_ok es" using nw by (simp add: first_ok_no_write)
      have ne: "EmptyDir \<notin> fst ` set es" using nw by force
      have nt: "TarExtract n \<notin> fst ` set es" for n using nw by force
      obtain x s2 where r: "checkForUpdates c cy ?s1 = (x, s2)" by (cases "checkForUpdates c cy ?s1")
      show ?thesis
        using \<open>truthy (gitUrl c) \<and> 0 < autoUpdateInterval c\<close> Inr True es f ne nt r
        by (cases x) (auto simp add: run_def init_content_def Let_def first_ok_append image_Un
            split: option.split)
    next
      case False
      have d1: "dir ?s1 = Some t" using assms by simp
      from initial_clone_reset [OF d1, of c w] obtain es where
        es: "trace (snd (initial_clone c w ?s1)) = trace s @ (CheckIsRepo, dir s) # es"
        and f: "first_ok es"
        and e: "(EmptyDir \<in> fst ` set es) = (readdir_err w = None \<and> readdir_items t \<noteq> [])"
        and nt: "\<forall>n. TarExtract n \<notin> fst ` set es"
        by auto
      obtain x s2 where r: "initial_clone c w ?s1 = (x, s2)" by (cases "initial_clone c w ?s1")
      show ?thesis
        using \<open>truthy (gitUrl c) \<and> 0 < autoUpdateInterval c\<close> Inr False es f e nt r
        by (cases x) (auto simp add: run_def init_content_def Let_def first_ok_append image_Un
            split: option.split)
    qed
  qed
qed

lemma startup_reset:
  "\<exists>es. trace (snd (startup c w cy s)) = trace s @ es \<and> first_ok es
           \<and> (EmptyDir \<in> fst ` set es)
               = (truthy (gitUrl c) \<and> 0 < autoUpdateInterval c \<and> isRepo_start w = Inr False
                  \<and> ensureDir_err w = None \<and> readdir_err w = None
                  \<and> readdir_items (dir_tree (dir s)) \<noteq> [])
           \<and> (\<forall>n. TarExtract n \<notin> fst ` set es)"
proof (cases "ensureDir_err w")
  case (Some e)
  then show ?thesis by (simp add: startup_def module_init_def fs_ensureDataDir_def Let_def)
next
  case None
  let ?s1 = "(emit (EnsureDir []) s)\<lparr>dir := Some (dir_tree (dir s))\<rparr>"
  have m: "module_init c w s = (Return (), ?s1)"
    using None by (simp add: module_init_def fs_ensureDataDir_def Let_def)
  have d: "dir ?s1 = Some (dir_tree (dir s))" by simp
  from run_reset [OF d, of c w cy] obtain es where
    "trace (snd (run c w cy ?s1)) = trace s @ (EnsureDir [], dir s) # es" and "first_ok es"
    and "(EmptyDir \<in> fst ` set es)
               = (truthy (gitUrl c) \<and> 0 < autoUpdateInterval c \<and> isRepo_start w = Inr False
                  \<and> readdir_err w = None \<and> readdir_items (dir_tree (dir s)) \<noteq> [])"
    and "\<forall>n. TarExtract n \<notin> fst ` set es"
    by auto
  then show ?thesis
    using None m by (auto simp add: startup_def)
qed


lemma module_init_creates_directory:
  "ensureDir_err w = None \<Longrightarrow>
     module_init c w s = (Return (), (emit (EnsureDir []) s)\<lparr>dir := Some (dir_tree (dir s))\<rparr>)"
  "ensureDir_err w = Some e \<Longrightarrow> fst (module_init c w s) = Exit 1"
  by (simp_all add: module_init_def fs_ensureDataDir_def Let_def)

text \<open>
  What holds in every run: the first write finds the directory existing and empty; the
  build always begins with the creation and the emptying of the directory, so that it
  leaves the same directory whatever was in it before; at run time the module body creates
  the directory, and the directory is emptied exactly when the repository strategy with a
  positive interval finds a directory that is not a repository and has entries; no
  extraction takes place at run time.
\<close>

lemma first_write_finds_empty_directory:
  "(case first_write s (snd (prepareDataDir c w s)) of None \<Rightarrow> True | Some e \<Rightarrow> is_empty_dir (snd e))
   \<and> (\<exists>es. new_actions s (snd (prepareDataDir c w s)) = EnsureDir [] # es)
   \<and> (ensureDir_err w = None
        \<longrightarrow> (\<exists>es. new_actions s (snd (prepareDataDir c w s)) = EnsureDir [] # EmptyDir # es))
   \<and> (ensureDir_err w = None \<and> emptyDir_err w = None
        \<longrightarrow> fst (prepareDataDir c w (s\<lparr>dir := d\<rparr>)) = fst (prepareDataDir c w s)
            \<and> dir (snd (prepareDataDir c w (s\<lparr>dir := d\<rparr>))) = dir (snd (prepareDataDir c w s)))
   \<and> (case first_write s (snd (startup c w cy s)) of None \<Rightarrow> True | Some e \<Rightarrow> is_empty_dir (snd e))
   \<and> (EmptyDir \<in> set (new_actions s (snd (startup c w cy s))))
       = (truthy (gitUrl c) \<and> 0 < autoUpdateInterval c \<and> isRepo_start w = Inr False
          \<and> ensureDir_err w = None \<and> readdir_err w = None
          \<and> readdir_items (dir_tree (dir s)) \<noteq> [])
   \<and> (\<forall>n. TarExtract n \<notin> set (new_actions s (snd (startup c w cy s))))"
proof -
  from prepareDataDir_first_write [of c w s] obtain es where
    "trace (snd (prepareDataDir c w s)) = trace s @ es" and "first_ok es" by blast
  then have b1: "case first_write s (snd (prepareDataDir c w s)) of None \<Rightarrow> True
                 | Some e \<Rightarrow> is_empty_dir (snd e)"
    using first_write_first_ok [of "snd (prepareDataDir c w s)" s es] by simp
  note b2 = prepareDataDir_starts_with_reset [where s = s and c = c and w = w]
  have b3: "ensureDir_err w = None \<and> emptyDir_err w = None
        \<longrightarrow> fst (prepareDataDir c w (s\<lparr>dir := d\<rparr>)) = fst (prepareDataDir c w s)
            \<and> dir (snd (prepareDataDir c w (s\<lparr>dir := d\<rparr>))) = dir (snd (prepareDataDir c w s))"
    using prepareDataDir_ignores_old_contents [where w = w and c = c and s = s and d = d] by blast
  from startup_reset [of c w cy s] obtain fs where
    t: "trace (snd (startup c w cy s)) = trace s @ fs" and f: "first_ok fs"
    and e: "(EmptyDir \<in> fst ` set fs)
               = (truthy (gitUrl c) \<and> 0 < autoUpdateInterval c \<and> isRepo_start w = Inr False
                  \<and> ensureDir_err w = None \<and> readdir_err w = None
                  \<and> readdir_items (dir_tree (dir s)) \<noteq> [])"
    and n: "\<forall>n. TarExtract n \<notin> fst ` set fs"
    by blast
  have r1: "case first_write s (snd (startup c w cy s)) of None \<Rightarrow> True
            | Some e \<Rightarrow> is_empty_dir (snd e)"
    using first_write_first_ok [OF t] f by simp
  have na: "set (new_actions s (snd (startup c w cy s))) = fst ` set fs"
    using t by (simp add: new_actions_def)
  from b1 b2 b3 r1 e n show ?thesis unfolding na by blast
qed

text \<open>
  Claim C3, for a strategy that is not the first of its pass, and for the archive strategy
  at run time.  In the build the directory is emptied once, before the first strategy.
  When the extraction fails after it has written an entry, the clone is started on the
  directory as the extraction left it, with no emptying in between (the run-time path does
  empty the directory before its clone); git refuses it, the build exits with code 1, and
  the entry of the failed extraction stays in the directory.  At run time the archive
  strategy neither empties the directory nor extracts anything: the process exits and the
  file of the earlier pass stays.
\<close>

theorem fallback_clone_starts_on_leftovers_of_extraction:
  "fst (build acme_config corrupt_archive_world stale_state) = Exit 1
   \<and> filter (\<lambda>e. is_write (fst e) \<or> fst e = EmptyDir)
        (drop (length (trace stale_state)) (trace (snd (build acme_config corrupt_archive_world stale_state))))
       = [(EmptyDir, Some [([''old.md''], File ''stale'')]),
          (TarExtract 1, Some []),
          (GitClone (Some ''https://github.com/acme/docs'') ''data'' (Some ''main''),
             Some [([''README.md''], File ''# docs'')])]
   \<and> dir (snd (build acme_config corrupt_archive_world stale_state))
       = Some [([''README.md''], File ''# docs'')]
   \<and> fst (startup acme_config archive_world cycle_behind stale_state) = Exit 1
   \<and> new_actions stale_state (snd (startup acme_config archive_world cycle_behind stale_state))
       = [EnsureDir [],
          Log (FailedTarball (ErrorObj ''TypeError'' ''this.downloadAndExtractTarballRuntime is not a function''))]
   \<and> dir (snd (startup acme_config archive_world cycle_behind stale_state)) = dir stale_state"
  by (simp add: build_def build_steps_def createDefaultConfig_def prepareDataDir_def
      fs_ensureDataDir_def fs_emptyDir_def downloadAndExtractTarball_def download_extract_def
      tar_x_def tar_strip_def write_entry_def cloneGitRepo_def git_clone_def readdir_items_def
      tarballUrl_def ref_or_main_def match_here_def strip_dot_git_def dir_tree_def Let_def
      startup_def module_init_def run_def init_content_def new_actions_def message_of_def
      acme_config_def corrupt_archive_world_def archive_world_def quiet_world_def stale_state_def)

end
